theory Spec2Isabelle
  imports Main
begin

section \<open>Data model\<close>

text \<open>
  A table definition is one value of the \<open>custom.athenaTables\<close> mapping of
  \<open>serverless.yml\<close>. Every field is optional in the configuration; a field that is
  not given reads as \<open>undefined\<close> (\<open>None\<close>). The table mapping itself is the list
  that \<open>Object.entries\<close> yields, in its order.
\<close>

record table =
  DDL :: "string option"
  DDLFile :: "string option"
  DDLSubstitutions :: "(string \<times> string) list option"
  OutputLocation :: "string option"
  TableName :: "string option"
  DatabaseName :: "string option"

type_synonym tables = "(string \<times> table) list"

text \<open>
  JavaScript truthiness of an optional string field: \<open>undefined\<close> and the empty
  string are falsy, every other string is truthy.
\<close>

definition truthy :: "string option \<Rightarrow> bool" where
  "truthy v = (case v of None \<Rightarrow> False | Some s \<Rightarrow> s \<noteq> [])"

text \<open>What a template literal prints for an optional string.\<close>

definition template :: "string option \<Rightarrow> string" where
  "template v = (case v of None \<Rightarrow> ''undefined'' | Some s \<Rightarrow> s)"

text \<open>
  What a template literal prints for the result of looking a table definition up:
  an object prints as \<open>[object Object]\<close>.
\<close>

definition template_table :: "table option \<Rightarrow> string" where
  "template_table v = (case v of None \<Rightarrow> ''undefined'' | Some t \<Rightarrow> ''[object Object]'')"

text \<open>The parameters of \<open>athena.startQueryExecution\<close>.\<close>

record params =
  QueryString :: "string option"
  ResultOutputLocation :: "string option"
  QueryExecutionContext :: "string option"

text \<open>
  Everything the plugin does to the outside world, in the order it happens: a line
  logged through \<open>serverless.cli.log\<close>, a query submission, a status check of an
  execution id, a timer of the given number of milliseconds, a file read.
\<close>

datatype event =
    Log string
  | StartQueryExecution params
  | GetQueryExecution string
  | SetTimeout nat
  | ReadFile string

type_synonym trace = "event list"

fun is_remote :: "event \<Rightarrow> bool" where
  "is_remote (StartQueryExecution p) = True"
| "is_remote (GetQueryExecution i) = True"
| "is_remote e = False"

definition remote_calls :: "trace \<Rightarrow> event list" where
  "remote_calls tr = filter is_remote tr"

fun is_check :: "event \<Rightarrow> bool" where
  "is_check (GetQueryExecution i) = True"
| "is_check e = False"

definition status_checks :: "trace \<Rightarrow> nat" where
  "status_checks tr = length (filter is_check tr)"

text \<open>
  Errors: \<open>ServerlessError\<close> is \<open>new this.serverless.classes.Error(msg)\<close>,
  \<open>JsError\<close> is \<open>new Error(msg)\<close>, \<open>Reason\<close> is a rejection with a plain string,
  \<open>ServiceError\<close> a failure of the query service, \<open>IOError\<close> a failure of
  \<open>fs.readFile\<close>, \<open>TypeError\<close> a method call on \<open>undefined\<close>.
\<close>

datatype error =
    ServerlessError string
  | JsError string
  | Reason string
  | ServiceError string
  | IOError string
  | TypeError

datatype jsval = Undefined | Str string | Entries tables

text \<open>
  How a call ends: it returns a value that is no promise, it returns a promise that
  is fulfilled or rejected, it throws before returning anything, or it returns a
  promise that is never settled.
\<close>

datatype outcome =
    Returned jsval
  | Resolved jsval
  | Rejected error
  | Thrown error
  | Pending

fun failure :: "outcome \<Rightarrow> bool" where
  "failure (Rejected e) = True"
| "failure (Thrown e) = True"
| "failure oc = False"

text \<open>
  The collaborators: the query service and the file system. Each answers a call from
  the history of events before it, so every deterministic service, and every single
  run of any service, is one value of this record.
\<close>

record env =
  startQueryExecution :: "trace \<Rightarrow> params \<Rightarrow> error + string"
  getQueryExecution :: "trace \<Rightarrow> string \<Rightarrow> error + string"
  readFile :: "trace \<Rightarrow> string \<Rightarrow> error + string"

section \<open>Validation\<close>

definition msg_one_of :: "string \<Rightarrow> string" where
  "msg_one_of tableName =
     ''Definition for Athena table '' @ tableName @ '' must include one of a DDLFile or DDL entry.''"

definition msg_not_both :: "string \<Rightarrow> string" where
  "msg_not_both tableName =
     ''Definition for Athena table '' @ tableName @
     '' must include one of a DDLFile or DDL entry, not both.''"

definition msg_output_location :: "string \<Rightarrow> string" where
  "msg_output_location tableName =
     ''Definition for Athena table '' @ tableName @ '' must include OutputLocation.''"

definition msg_table_name :: "string \<Rightarrow> string" where
  "msg_table_name tableName =
     ''Definition for Athena table '' @ tableName @
     '' must include TableName to allow dropping the table on remove.''"

definition msg_database_name :: "string \<Rightarrow> string" where
  "msg_database_name tableName =
     ''Warning: Athena table '' @ tableName @
     '' definition does not include DatabaseName; default database will be used''"

definition validateAthenaTable :: "string \<Rightarrow> table \<Rightarrow> trace \<Rightarrow> outcome \<times> trace" where
  "validateAthenaTable tableName t tr =
     (if \<not> truthy (DDLFile t) \<and> \<not> truthy (DDL t) then
        (Thrown (ServerlessError (msg_one_of tableName)), tr)
      else if truthy (DDLFile t) \<and> truthy (DDL t) then
        (Thrown (ServerlessError (msg_not_both tableName)), tr)
      else if \<not> truthy (OutputLocation t) then
        (Thrown (ServerlessError (msg_output_location tableName)), tr)
      else if \<not> truthy (TableName t) then
        (Thrown (ServerlessError (msg_table_name tableName)), tr)
      else if \<not> truthy (DatabaseName t) then
        (Resolved Undefined, tr @ [Log (msg_database_name tableName)])
      else (Resolved Undefined, tr))"

section \<open>The poller\<close>

text \<open>
  \<open>isQueryComplete\<close> is the closure of \<open>waitForAthenaQuery\<close>: one status check and
  the \<open>switch\<close> on the state it observes. A re-check is scheduled with
  \<open>setTimeout(isQueryComplete, 1000)\<close>. No bound is put on the number of checks, so a
  run that polls for ever has the value \<open>None\<close>. When the status check itself fails,
  nothing handles the failure and the promise of \<open>waitForAthenaQuery\<close> is never
  settled.
\<close>

partial_function (option) isQueryComplete :: "env \<Rightarrow> string \<Rightarrow> trace \<Rightarrow> (outcome \<times> trace) option" where
  "isQueryComplete a qid tr =
     (case getQueryExecution a tr qid of
        Inl e \<Rightarrow> Some (Pending, tr @ [GetQueryExecution qid])
      | Inr state \<Rightarrow>
          if state = ''SUCCEEDED'' then Some (Resolved (Str qid), tr @ [GetQueryExecution qid])
          else if state = ''RUNNING'' \<or> state = ''QUEUED'' then
            isQueryComplete a qid (tr @ [GetQueryExecution qid, SetTimeout 1000])
          else Some (Rejected (Reason (''Query status '' @ state)), tr @ [GetQueryExecution qid]))"

declare isQueryComplete.simps [code]

definition waitForAthenaQuery :: "env \<Rightarrow> string \<Rightarrow> trace \<Rightarrow> (outcome \<times> trace) option" where
  "waitForAthenaQuery a qid tr = isQueryComplete a qid tr"

text \<open>
  The vocabulary of the poller's runs: a response on which the \<open>switch\<close> schedules a
  re-check, the outcome of every other response, and the trace after \<open>k\<close> checks that
  were each followed by the timer.
\<close>

definition keeps_polling :: "error + string \<Rightarrow> bool" where
  "keeps_polling r = (r = Inr ''RUNNING'' \<or> r = Inr ''QUEUED'')"

definition settled :: "string \<Rightarrow> error + string \<Rightarrow> outcome" where
  "settled qid r =
     (case r of
        Inl e \<Rightarrow> Pending
      | Inr state \<Rightarrow>
          if state = ''SUCCEEDED'' then Resolved (Str qid)
          else Rejected (Reason (''Query status '' @ state)))"

definition recheck_trace :: "string \<Rightarrow> trace \<Rightarrow> nat \<Rightarrow> trace" where
  "recheck_trace qid tr k = tr @ concat (replicate k [GetQueryExecution qid, SetTimeout 1000])"

section \<open>Dropping a table\<close>

definition dropQuery :: "bool \<Rightarrow> table \<Rightarrow> string" where
  "dropQuery ifExists t =
     ''DROP TABLE '' @ (if ifExists then ''IF EXISTS'' else []) @ '' '' @ template (TableName t)"

definition dropParams :: "bool \<Rightarrow> table \<Rightarrow> params" where
  "dropParams ifExists t =
     \<lparr>QueryString = Some (dropQuery ifExists t),
      ResultOutputLocation = OutputLocation t,
      QueryExecutionContext = (if truthy (DatabaseName t) then DatabaseName t else None)\<rparr>"

text \<open>
  The third parameter of \<open>deleteAthenaTable\<close> has a default: \<open>None\<close> is a call that
  leaves the argument out.
\<close>

definition ifExistsArg :: "bool option \<Rightarrow> bool" where
  "ifExistsArg arg = (case arg of None \<Rightarrow> False | Some b \<Rightarrow> b)"

definition deleteAthenaTable ::
  "env \<Rightarrow> string \<Rightarrow> table \<Rightarrow> bool option \<Rightarrow> trace \<Rightarrow> (outcome \<times> trace) option" where
  "deleteAthenaTable a tableName t arg tr =
     (let p = dropParams (ifExistsArg arg) t;
          tr1 = tr @ [Log (''Removing Athena table '' @ tableName @ '' ('' @
                           template (TableName t) @ '')...'')]
      in case startQueryExecution a tr1 p of
           Inl e \<Rightarrow> Some (Rejected e, tr1 @ [StartQueryExecution p])
         | Inr qid \<Rightarrow> waitForAthenaQuery a qid (tr1 @ [StartQueryExecution p]))"

section \<open>Resolving the DDL\<close>

text \<open>
  \<open>String.prototype.replace\<close> with a string pattern and a string replacement: the
  first occurrence of the pattern is replaced, and the replacement is a template in
  which a doubled dollar sign stands for one dollar sign, dollar-ampersand for the
  matched text, dollar-backtick for the text before the match and dollar-apostrophe
  for the text after it. A string pattern has no capture groups, so every other use
  of the dollar sign stands for itself.
\<close>

fun js_indexOf :: "string \<Rightarrow> string \<Rightarrow> nat option" where
  "js_indexOf [] pat = (if pat = [] then Some 0 else None)"
| "js_indexOf (c # cs) pat =
     (if take (length pat) (c # cs) = pat then Some 0
      else map_option Suc (js_indexOf cs pat))"

fun getSubstitution :: "string \<Rightarrow> string \<Rightarrow> string \<Rightarrow> string \<Rightarrow> string" where
  "getSubstitution matched preceding following [] = []"
| "getSubstitution matched preceding following [c] = [c]"
| "getSubstitution matched preceding following (c # d # rest) =
     (if c = CHR ''$'' \<and> d = CHR ''$'' then CHR ''$'' # getSubstitution matched preceding following rest
      else if c = CHR ''$'' \<and> d = CHR ''&'' then matched @ getSubstitution matched preceding following rest
      else if c = CHR ''$'' \<and> d = CHR 0x60 then preceding @ getSubstitution matched preceding following rest
      else if c = CHR ''$'' \<and> d = CHR 0x27 then following @ getSubstitution matched preceding following rest
      else c # getSubstitution matched preceding following (d # rest))"

definition js_replace :: "string \<Rightarrow> string \<Rightarrow> string \<Rightarrow> string" where
  "js_replace s pat rep =
     (case js_indexOf s pat of
        None \<Rightarrow> s
      | Some i \<Rightarrow>
          take i s @ getSubstitution pat (take i s) (drop (i + length pat) s) rep @
          drop (i + length pat) s)"

text \<open>
  The first callback of the chain in \<open>createAthenaTable\<close> (lines 246 to 251): the
  text of the DDL file, or the inline DDL.
\<close>

definition readDDL :: "env \<Rightarrow> table \<Rightarrow> trace \<Rightarrow> (error + string option) \<times> trace" where
  "readDDL a t tr =
     (case DDLFile t of
        None \<Rightarrow> (Inr (DDL t), tr)
      | Some file \<Rightarrow>
          if file = [] then (Inr (DDL t), tr)
          else (case readFile a tr file of
                  Inl e \<Rightarrow> (Inl e, tr @ [ReadFile file])
                | Inr content \<Rightarrow> (Inr (Some content), tr @ [ReadFile file])))"

text \<open>
  The second callback (lines 252 to 259): the \<open>reduce\<close> over the entries of
  \<open>DDLSubstitutions\<close>. Calling \<open>replace\<close> on \<open>undefined\<close> throws a TypeError.
\<close>

definition token :: "string \<Rightarrow> string" where
  "token name = ''{'' @ name @ ''}''"

fun reduceSubstitutions :: "(string \<times> string) list \<Rightarrow> string option \<Rightarrow> error + string option" where
  "reduceSubstitutions [] ddl = Inr ddl"
| "reduceSubstitutions (r # rs) None = Inl TypeError"
| "reduceSubstitutions (r # rs) (Some modifiedDDL) =
     reduceSubstitutions rs (Some (js_replace modifiedDDL (token (fst r)) (snd r)))"

definition substituteDDL :: "table \<Rightarrow> string option \<Rightarrow> error + string option" where
  "substituteDDL t ddl =
     (case DDLSubstitutions t of
        None \<Rightarrow> Inr ddl
      | Some subs \<Rightarrow> reduceSubstitutions subs ddl)"

section \<open>Creating a table\<close>

definition createParams :: "table \<Rightarrow> string option \<Rightarrow> params" where
  "createParams t ddl =
     \<lparr>QueryString = ddl,
      ResultOutputLocation = OutputLocation t,
      QueryExecutionContext = (if truthy (DatabaseName t) then DatabaseName t else None)\<rparr>"

text \<open>The last two callbacks (lines 260 to 271): submit the DDL and wait for it.\<close>

definition submitCreate ::
  "env \<Rightarrow> string \<Rightarrow> table \<Rightarrow> string option \<Rightarrow> trace \<Rightarrow> (outcome \<times> trace) option" where
  "submitCreate a tableName t ddl tr =
     (let p = createParams t ddl;
          tr1 = tr @ [Log (''Creating Athena table '' @ tableName @ ''...'')]
      in case startQueryExecution a tr1 p of
           Inl e \<Rightarrow> Some (Rejected e, tr1 @ [StartQueryExecution p])
         | Inr qid \<Rightarrow> waitForAthenaQuery a qid (tr1 @ [StartQueryExecution p]))"

text \<open>
  A \<open>then\<close> callback runs only when the promise before it is fulfilled; a rejection
  and a promise that is never settled pass down the chain.
\<close>

definition resolveAndCreate ::
  "env \<Rightarrow> string \<Rightarrow> table \<Rightarrow> trace \<Rightarrow> (outcome \<times> trace) option" where
  "resolveAndCreate a tableName t tr =
     (case readDDL a t tr of
        (Inl e, tr1) \<Rightarrow> Some (Rejected e, tr1)
      | (Inr ddl, tr1) \<Rightarrow>
          (case substituteDDL t ddl of
             Inl e \<Rightarrow> Some (Rejected e, tr1)
           | Inr ddl' \<Rightarrow> submitCreate a tableName t ddl' tr1))"

fun fulfilled :: "outcome \<Rightarrow> bool" where
  "fulfilled (Resolved v) = True"
| "fulfilled oc = False"

definition createAthenaTable ::
  "env \<Rightarrow> string \<Rightarrow> table \<Rightarrow> trace \<Rightarrow> (outcome \<times> trace) option" where
  "createAthenaTable a tableName t tr =
     (case validateAthenaTable tableName t tr of
        (oc, tr1) \<Rightarrow>
          if fulfilled oc then
            (case deleteAthenaTable a tableName t (Some True) tr1 of
               None \<Rightarrow> None
             | Some (oc2, tr2) \<Rightarrow>
                 if fulfilled oc2 then resolveAndCreate a tableName t tr2
                 else Some (oc2, tr2))
          else Some (oc, tr1))"

section \<open>Batches\<close>

text \<open>
  Both batch operations call Bluebird's \<open>Promise.map\<close> with \<open>concurrency: 1\<close>.
  Bluebird documents that the order in which \<open>Promise.map\<close> calls the mapper on the
  elements is not specified. What it does: it walks the array from the front, calls
  the mapper on an element when fewer than \<open>concurrency\<close> calls are in flight and
  pushes the index onto a queue otherwise; each time a call is fulfilled it takes the
  next index from the back of that queue (\<open>queue.pop()\<close>). The mappers here return a
  promise that is still pending or throw, so with one call in flight the first
  element is mapped first and the others from the last to the second.
\<close>

definition promiseMapOrder :: "'a list \<Rightarrow> 'a list" where
  "promiseMapOrder xs = (case xs of [] \<Rightarrow> [] | x # rest \<Rightarrow> x # rev rest)"

text \<open>
  One mapper call at a time, in the given order. A mapper that throws and a promise
  that is rejected both reject the promise of \<open>Promise.map\<close>, and nothing is taken
  from the queue after that; a promise that is never settled leaves it pending. The
  array of results is dropped by the callers, whose \<open>then\<close> callback takes no
  argument.
\<close>

fun completed :: "outcome \<Rightarrow> bool" where
  "completed (Returned v) = True"
| "completed (Resolved v) = True"
| "completed oc = False"

fun rejection :: "outcome \<Rightarrow> outcome" where
  "rejection (Thrown e) = Rejected e"
| "rejection oc = oc"

fun mapSerial ::
  "('a \<Rightarrow> trace \<Rightarrow> (outcome \<times> trace) option) \<Rightarrow> 'a list \<Rightarrow> trace \<Rightarrow> (outcome \<times> trace) option" where
  "mapSerial f [] tr = Some (Resolved Undefined, tr)"
| "mapSerial f (x # xs) tr =
     (case f x tr of
        None \<Rightarrow> None
      | Some (oc, tr1) \<Rightarrow>
          if completed oc then mapSerial f xs tr1 else Some (rejection oc, tr1))"

definition promiseMap ::
  "('a \<Rightarrow> trace \<Rightarrow> (outcome \<times> trace) option) \<Rightarrow> 'a list \<Rightarrow> trace \<Rightarrow> (outcome \<times> trace) option" where
  "promiseMap f xs tr = mapSerial f (promiseMapOrder xs) tr"

text \<open>
  The two mappers: the arrow functions that spread an entry of the table mapping
  into the name and the definition. The one of the delete batch passes no third
  argument.
\<close>

definition createMapper :: "env \<Rightarrow> string \<times> table \<Rightarrow> trace \<Rightarrow> (outcome \<times> trace) option" where
  "createMapper a tableEntry = createAthenaTable a (fst tableEntry) (snd tableEntry)"

definition deleteMapper :: "env \<Rightarrow> string \<times> table \<Rightarrow> trace \<Rightarrow> (outcome \<times> trace) option" where
  "deleteMapper a tableEntry = deleteAthenaTable a (fst tableEntry) (snd tableEntry) None"

definition createAthenaTables :: "env \<Rightarrow> tables \<Rightarrow> trace \<Rightarrow> (outcome \<times> trace) option" where
  "createAthenaTables a ts tr =
     (case promiseMap (createMapper a) ts tr of
        None \<Rightarrow> None
      | Some (oc, tr1) \<Rightarrow>
          if fulfilled oc then
            Some (Resolved Undefined, tr1 @ [Log ''Athena tables created successfully.''])
          else Some (oc, tr1))"

definition deleteAthenaTables :: "env \<Rightarrow> tables \<Rightarrow> trace \<Rightarrow> (outcome \<times> trace) option" where
  "deleteAthenaTables a ts tr =
     (case promiseMap (deleteMapper a) ts tr of
        None \<Rightarrow> None
      | Some (oc, tr1) \<Rightarrow>
          if fulfilled oc then
            Some (Resolved Undefined, tr1 @ [Log ''Athena tables deleted successfully.''])
          else Some (oc, tr1))"

section \<open>Hooks and commands\<close>

text \<open>
  \<open>getAthenaTables\<close>: the \<open>custom.athenaTables\<close> section, or the empty mapping when
  there is none.
\<close>

definition getAthenaTables :: "tables option \<Rightarrow> tables" where
  "getAthenaTables custom = (case custom of None \<Rightarrow> [] | Some ts \<Rightarrow> ts)"

text \<open>
  \<open>validateAthenaTablesGlobal\<close> passes the entries and a callback to Bluebird's
  \<open>Promise.all\<close>. \<open>Promise.all\<close> has one parameter, the array; it is fulfilled with
  that array once every element that is a promise is fulfilled. The entries are no
  promises, and the callback in the second argument is never called.
\<close>

definition validateAthenaTablesGlobal :: "tables option \<Rightarrow> trace \<Rightarrow> outcome \<times> trace" where
  "validateAthenaTablesGlobal custom tr =
     (let athenaTables = getAthenaTables custom
      in if length athenaTables > 0 then
           (Resolved (Entries athenaTables), tr @ [Log ''Validating Athena tables...''])
         else (Returned Undefined, tr))"

definition createAthenaTablesGlobal ::
  "env \<Rightarrow> tables option \<Rightarrow> trace \<Rightarrow> (outcome \<times> trace) option" where
  "createAthenaTablesGlobal a custom tr =
     (let athenaTables = getAthenaTables custom
      in if length athenaTables > 0 then
           createAthenaTables a athenaTables (tr @ [Log ''Creating Athena tables...''])
         else Some (Returned Undefined, tr))"

definition deleteAthenaTablesGlobal ::
  "env \<Rightarrow> tables option \<Rightarrow> trace \<Rightarrow> (outcome \<times> trace) option" where
  "deleteAthenaTablesGlobal a custom tr =
     (let athenaTables = getAthenaTables custom
      in if length athenaTables > 0 then
           deleteAthenaTables a athenaTables (tr @ [Log ''Removing Athena tables...''])
         else Some (Returned Undefined, tr))"

definition msg_no_tables :: string where
  "msg_no_tables =
     ''No Athena tables found.  Define them in a custom.athenatables section in serverless.yml.''"

text \<open>
  The two commands take the \<open>--table\<close> option. The looked-up definition, not the
  option, is what their messages print. The lookup is among the entries of the
  configured mapping; a name that the mapping object inherits from
  \<open>Object.prototype\<close>, such as \<open>toString\<close>, is found by the code and is not
  modelled here.
\<close>

definition deployAthenaTablesDeploy ::
  "env \<Rightarrow> string option \<Rightarrow> tables option \<Rightarrow> trace \<Rightarrow> (outcome \<times> trace) option" where
  "deployAthenaTablesDeploy a optTable custom tr =
     (let athenaTables = getAthenaTables custom
      in if truthy optTable then
           (case map_of athenaTables (template optTable) of
              Some t \<Rightarrow>
                createAthenaTable a (template optTable) t
                  (tr @ [Log (''Creating Athena table '' @ template_table (Some t) @ ''...'')])
            | None \<Rightarrow>
                Some (Rejected (JsError (''Athena table not found: '' @ template_table None)), tr))
         else if length athenaTables > 0 then
           createAthenaTables a athenaTables (tr @ [Log ''Creating all Athena tables...''])
         else Some (Resolved Undefined, tr @ [Log msg_no_tables]))"

definition removeAthenaTablesRemove ::
  "env \<Rightarrow> string option \<Rightarrow> tables option \<Rightarrow> trace \<Rightarrow> (outcome \<times> trace) option" where
  "removeAthenaTablesRemove a optTable custom tr =
     (let athenaTables = getAthenaTables custom
      in if truthy optTable then
           (case map_of athenaTables (template optTable) of
              Some t \<Rightarrow>
                deleteAthenaTable a (template optTable) t None
                  (tr @ [Log (''Removing Athena table '' @ template_table (Some t) @ ''...'')])
            | None \<Rightarrow>
                Some (Rejected (JsError (''Athena table not found: '' @ template_table None)), tr))
         else if length athenaTables > 0 then
           deleteAthenaTables a athenaTables (tr @ [Log ''Removing all Athena tables...''])
         else Some (Resolved Undefined, tr @ [Log msg_no_tables]))"

section \<open>Observing traces and texts\<close>

text \<open>The queries submitted in a trace, in order.\<close>

fun submissions :: "trace \<Rightarrow> params list" where
  "submissions [] = []"
| "submissions (StartQueryExecution p # tr) = p # submissions tr"
| "submissions (e # tr) = submissions tr"

text \<open>The line that \<open>deleteAthenaTable\<close> logs.\<close>

definition dropLog :: "string \<Rightarrow> table \<Rightarrow> event" where
  "dropLog tableName t =
     Log (''Removing Athena table '' @ tableName @ '' ('' @ template (TableName t) @ '')...'')"

text \<open>
  An occurrence of a pattern in a text at an index, and a replacement string that
  contains one of the four patterns that \<open>replace\<close> expands.
\<close>

definition occurs_at :: "string \<Rightarrow> string \<Rightarrow> nat \<Rightarrow> bool" where
  "occurs_at pat s i = (i + length pat \<le> length s \<and> take (length pat) (drop i s) = pat)"

fun has_pattern :: "string \<Rightarrow> bool" where
  "has_pattern (c # d # rest) =
     (c = CHR ''$'' \<and> (d = CHR ''$'' \<or> d = CHR ''&'' \<or> d = CHR 0x60 \<or> d = CHR 0x27) \<or>
      has_pattern (d # rest))"
| "has_pattern s = False"

text \<open>
  A list of operations that run in turn: \<open>trs\<close> holds the trace before the first
  operation and the trace after each one; every operation starts at the trace where
  the one before it ended, returns, and is completed.
\<close>

fun runs_in_turn ::
  "('a \<Rightarrow> trace \<Rightarrow> (outcome \<times> trace) option) \<Rightarrow> 'a list \<Rightarrow> trace list \<Rightarrow> bool" where
  "runs_in_turn f [] trs = (length trs = 1)"
| "runs_in_turn f (x # xs) (tr # tr1 # trs) =
     ((case f x tr of None \<Rightarrow> False | Some (oc, tr') \<Rightarrow> completed oc \<and> tr' = tr1) \<and>
      runs_in_turn f xs (tr1 # trs))"
| "runs_in_turn f (x # xs) trs = False"

section \<open>Example configurations and services\<close>

text \<open>
  A mock of the collaborators: submissions are answered by \<open>submit\<close>, the n-th status
  check of a run observes the n-th state of \<open>states\<close> and fails once the list is used
  up, and \<open>files\<close> holds the readable files.
\<close>

definition mockService ::
  "(params \<Rightarrow> error + string) \<Rightarrow> string list \<Rightarrow> (string \<Rightarrow> string option) \<Rightarrow> env" where
  "mockService submit states files =
     \<lparr>startQueryExecution = (\<lambda>tr p. submit p),
      getQueryExecution = (\<lambda>tr qid.
        if status_checks tr < length states then Inr (states ! status_checks tr)
        else Inl (ServiceError ''no status'')),
      readFile = (\<lambda>tr file.
        case files file of None \<Rightarrow> Inl (IOError file) | Some content \<Rightarrow> Inr content)\<rparr>"

definition okSubmit :: "params \<Rightarrow> error + string" where
  "okSubmit p = Inr ''q1''"

text \<open>A service on which every query runs for ever.\<close>

definition alwaysRunning :: env where
  "alwaysRunning =
     \<lparr>startQueryExecution = (\<lambda>tr p. Inr ''q1''),
      getQueryExecution = (\<lambda>tr qid. Inr ''RUNNING''),
      readFile = (\<lambda>tr file. Inl (IOError file))\<rparr>"

text \<open>An example of a complete table definition.\<close>

definition goodTable :: table where
  "goodTable =
     \<lparr>DDL = Some ''CREATE EXTERNAL TABLE t1 (name string) LOCATION {S3Location}'',
      DDLFile = None,
      DDLSubstitutions = Some [(''S3Location'', ''s3://bucket/path'')],
      OutputLocation = Some ''s3://bucket/out/'',
      TableName = Some ''t1'',
      DatabaseName = Some ''db''\<rparr>"

text \<open>
  A service on which every query succeeds at its first check; three tables; a
  service that refuses to drop the table of the given name; the traces of dropping
  and of creating the first table; a definition without a DDL source.
\<close>

definition twoSucceeded :: env where
  "twoSucceeded = mockService okSubmit [''SUCCEEDED'', ''SUCCEEDED''] Map.empty"

definition threeTables :: tables where
  "threeTables =
     [(''t1'', goodTable),
      (''t2'', goodTable\<lparr>TableName := Some ''t2''\<rparr>),
      (''t3'', goodTable\<lparr>TableName := Some ''t3''\<rparr>)]"

definition denyTable :: "string \<Rightarrow> params \<Rightarrow> error + string" where
  "denyTable name p =
     (if QueryString p = Some (''DROP TABLE  '' @ name) \<or>
         QueryString p = Some (''DROP TABLE IF EXISTS '' @ name)
      then Inl (ServiceError ''denied'') else Inr ''q1'')"

definition denying :: "string \<Rightarrow> env" where
  "denying name =
     mockService (denyTable name) [''SUCCEEDED'', ''SUCCEEDED'', ''SUCCEEDED'', ''SUCCEEDED''] Map.empty"

definition t1Dropped :: trace where
  "t1Dropped =
     [Log ''Removing Athena table t1 (t1)...'',
      StartQueryExecution (dropParams False goodTable),
      GetQueryExecution ''q1'']"

definition t1Created :: trace where
  "t1Created =
     [Log ''Removing Athena table t1 (t1)...'',
      StartQueryExecution (dropParams True goodTable),
      GetQueryExecution ''q1'',
      Log ''Creating Athena table t1...'',
      StartQueryExecution (createParams goodTable
        (Some ''CREATE EXTERNAL TABLE t1 (name string) LOCATION s3://bucket/path'')),
      GetQueryExecution ''q1'']"

definition noDDL :: table where
  "noDDL = goodTable\<lparr>DDL := None, TableName := Some ''t2''\<rparr>"

text \<open>
  A service on which every query succeeds at its first check, except that it
  refuses to drop the table of the given name; a complete definition with the given
  TableName; the events of dropping and of creating such a table under its own name,
  and of a drop that is refused.
\<close>

definition refusing :: "string \<Rightarrow> env" where
  "refusing name =
     \<lparr>startQueryExecution = (\<lambda>tr p. denyTable name p),
      getQueryExecution = (\<lambda>tr qid. Inr ''SUCCEEDED''),
      readFile = (\<lambda>tr file. Inl (IOError file))\<rparr>"

definition tableNamed :: "string \<Rightarrow> table" where
  "tableNamed n = goodTable\<lparr>TableName := Some n\<rparr>"

definition dropped :: "bool \<Rightarrow> string \<Rightarrow> trace" where
  "dropped ifExists n =
     [Log (''Removing Athena table '' @ n @ '' ('' @ n @ '')...''),
      StartQueryExecution (dropParams ifExists (tableNamed n)),
      GetQueryExecution ''q1'']"

definition refused :: "bool \<Rightarrow> string \<Rightarrow> trace" where
  "refused ifExists n =
     [Log (''Removing Athena table '' @ n @ '' ('' @ n @ '')...''),
      StartQueryExecution (dropParams ifExists (tableNamed n))]"

definition created :: "string \<Rightarrow> trace" where
  "created n =
     dropped True n @
     [Log (''Creating Athena table '' @ n @ ''...''),
      StartQueryExecution (createParams (tableNamed n)
        (Some ''CREATE EXTERNAL TABLE t1 (name string) LOCATION s3://bucket/path'')),
      GetQueryExecution ''q1'']"

definition createdTraces :: "trace list" where
  "createdTraces =
     [[], created ''t1'', created ''t1'' @ created ''t3'',
      created ''t1'' @ created ''t3'' @ created ''t2'']"

definition droppedTraces :: "trace list" where
  "droppedTraces =
     [[], dropped False ''t1'', dropped False ''t1'' @ dropped False ''t3'',
      dropped False ''t1'' @ dropped False ''t3'' @ dropped False ''t2'']"

section \<open>Runs of the poller\<close>

lemma recheck_trace_Suc:
  "recheck_trace qid tr (Suc k) = recheck_trace qid (tr @ [GetQueryExecution qid, SetTimeout 1000]) k"
  by (simp add: recheck_trace_def)

lemma isQueryComplete_recheck:
  "keeps_polling (getQueryExecution a tr qid) \<Longrightarrow>
   isQueryComplete a qid tr = isQueryComplete a qid (tr @ [GetQueryExecution qid, SetTimeout 1000])"
  by (subst isQueryComplete.simps) (auto simp: keeps_polling_def)

lemma isQueryComplete_stop:
  "\<not> keeps_polling (getQueryExecution a tr qid) \<Longrightarrow>
   isQueryComplete a qid tr =
     Some (settled qid (getQueryExecution a tr qid), tr @ [GetQueryExecution qid])"
  by (subst isQueryComplete.simps) (auto simp: keeps_polling_def settled_def split: sum.splits)

lemma isQueryComplete_unroll:
  "(\<forall>j<k. keeps_polling (getQueryExecution a (recheck_trace qid tr j) qid)) \<Longrightarrow>
   isQueryComplete a qid tr = isQueryComplete a qid (recheck_trace qid tr k)"
proof (induction k arbitrary: tr)
  case 0
  then show ?case by (simp add: recheck_trace_def)
next
  case (Suc k)
  from Suc.prems have first: "keeps_polling (getQueryExecution a tr qid)"
    by (auto simp: recheck_trace_def dest: spec [of _ 0])
  have later: "\<forall>j<k. keeps_polling
      (getQueryExecution a (recheck_trace qid (tr @ [GetQueryExecution qid, SetTimeout 1000]) j) qid)"
  proof (intro allI impI)
    fix j assume "j < k"
    then have "Suc j < Suc k" by simp
    with Suc.prems have "keeps_polling (getQueryExecution a (recheck_trace qid tr (Suc j)) qid)"
      by blast
    then show "keeps_polling
      (getQueryExecution a (recheck_trace qid (tr @ [GetQueryExecution qid, SetTimeout 1000]) j) qid)"
      by (simp only: recheck_trace_Suc)
  qed
  show ?case
    using isQueryComplete_recheck [OF first] Suc.IH [OF later]
    by (simp only: recheck_trace_Suc)
qed

lemma isQueryComplete_returns:
  "isQueryComplete a qid tr = Some r \<Longrightarrow>
   \<exists>k. (\<forall>j<k. keeps_polling (getQueryExecution a (recheck_trace qid tr j) qid)) \<and>
       \<not> keeps_polling (getQueryExecution a (recheck_trace qid tr k) qid) \<and>
       snd r = recheck_trace qid tr k @ [GetQueryExecution qid]"
proof (induction a qid tr r rule: isQueryComplete.raw_induct [rotated 1, consumes 1, case_names step])
  case (step f a qid tr r)
  note 1 = step
  let ?next = "tr @ [GetQueryExecution qid, SetTimeout 1000]"
  show ?case
  proof (cases "keeps_polling (getQueryExecution a tr qid)")
    case False
    with 1(2) have "snd r = tr @ [GetQueryExecution qid]"
      by (auto simp: keeps_polling_def split: sum.splits if_splits)
    with False show ?thesis
      by (intro exI [of _ 0]) (simp add: recheck_trace_def)
  next
    case True
    with 1(2) have "f a qid ?next = Some r"
      by (auto simp: keeps_polling_def split: sum.splits if_splits)
    then have "\<exists>k. (\<forall>j<k. keeps_polling (getQueryExecution a (recheck_trace qid ?next j) qid)) \<and>
       \<not> keeps_polling (getQueryExecution a (recheck_trace qid ?next k) qid) \<and>
       snd r = recheck_trace qid ?next k @ [GetQueryExecution qid]"
      by (rule 1(1))
    then obtain k where
      k: "(\<forall>j<k. keeps_polling (getQueryExecution a (recheck_trace qid ?next j) qid)) \<and>
       \<not> keeps_polling (getQueryExecution a (recheck_trace qid ?next k) qid) \<and>
       snd r = recheck_trace qid ?next k @ [GetQueryExecution qid]" ..
    have "\<forall>j<Suc k. keeps_polling (getQueryExecution a (recheck_trace qid tr j) qid)"
    proof (intro allI impI)
      fix j assume "j < Suc k"
      show "keeps_polling (getQueryExecution a (recheck_trace qid tr j) qid)"
      proof (cases j)
        case 0
        with True show ?thesis by (simp add: recheck_trace_def)
      next
        case (Suc i)
        with \<open>j < Suc k\<close> have "i < k" by simp
        with k have "keeps_polling (getQueryExecution a (recheck_trace qid ?next i) qid)"
          by blast
        with Suc show ?thesis by (simp only: recheck_trace_Suc)
      qed
    qed
    moreover from k have "\<not> keeps_polling (getQueryExecution a (recheck_trace qid tr (Suc k)) qid)"
      by (simp only: recheck_trace_Suc simp_thms)
    moreover from k have "snd r = recheck_trace qid tr (Suc k) @ [GetQueryExecution qid]"
      by (simp only: recheck_trace_Suc simp_thms)
    ultimately show ?thesis by blast
  qed
qed

lemma isQueryComplete_run:
  assumes "isQueryComplete a qid tr = Some r"
  shows "\<exists>k. (\<forall>j<k. keeps_polling (getQueryExecution a (recheck_trace qid tr j) qid)) \<and>
       \<not> keeps_polling (getQueryExecution a (recheck_trace qid tr k) qid) \<and>
       r = (settled qid (getQueryExecution a (recheck_trace qid tr k) qid),
            recheck_trace qid tr k @ [GetQueryExecution qid])"
proof -
  from isQueryComplete_returns [OF assms] obtain k where
    k: "(\<forall>j<k. keeps_polling (getQueryExecution a (recheck_trace qid tr j) qid)) \<and>
       \<not> keeps_polling (getQueryExecution a (recheck_trace qid tr k) qid) \<and>
       snd r = recheck_trace qid tr k @ [GetQueryExecution qid]" ..
  then have "isQueryComplete a qid tr = isQueryComplete a qid (recheck_trace qid tr k)"
    using isQueryComplete_unroll [of k a qid tr] by blast
  also from k have "\<dots> = Some (settled qid (getQueryExecution a (recheck_trace qid tr k) qid),
            recheck_trace qid tr k @ [GetQueryExecution qid])"
    using isQueryComplete_stop [of a "recheck_trace qid tr k" qid] by blast
  finally have "r = (settled qid (getQueryExecution a (recheck_trace qid tr k) qid),
            recheck_trace qid tr k @ [GetQueryExecution qid])"
    using assms by simp
  with k show ?thesis by blast
qed

text \<open>
  C1. On each status check the poller does the following. When the observed state is
  SUCCEEDED it resolves with the execution id. When it is FAILED or CANCELLED it
  rejects with a reason that carries the observed state, and the trace ends with that
  check: no further status check is made. When it is RUNNING or QUEUED it sets a timer
  of 1000 milliseconds and checks again. For the states QUEUED, RUNNING, SUCCEEDED on
  successive checks it resolves after exactly three checks; for FAILED on the first
  check it rejects after exactly one.
\<close>

theorem waitForAthenaQuery_each_check:
  "(getQueryExecution a tr qid = Inr ''SUCCEEDED'' \<longrightarrow>
      waitForAthenaQuery a qid tr = Some (Resolved (Str qid), tr @ [GetQueryExecution qid]))
   \<and> (getQueryExecution a tr qid = Inr ''FAILED'' \<longrightarrow>
      waitForAthenaQuery a qid tr =
        Some (Rejected (Reason ''Query status FAILED''), tr @ [GetQueryExecution qid]) \<and>
      status_checks (tr @ [GetQueryExecution qid]) = status_checks tr + 1)
   \<and> (getQueryExecution a tr qid = Inr ''CANCELLED'' \<longrightarrow>
      waitForAthenaQuery a qid tr =
        Some (Rejected (Reason ''Query status CANCELLED''), tr @ [GetQueryExecution qid]) \<and>
      status_checks (tr @ [GetQueryExecution qid]) = status_checks tr + 1)
   \<and> (getQueryExecution a tr qid = Inr ''RUNNING'' \<or> getQueryExecution a tr qid = Inr ''QUEUED'' \<longrightarrow>
      waitForAthenaQuery a qid tr =
        isQueryComplete a qid (tr @ [GetQueryExecution qid, SetTimeout 1000]))
   \<and> (getQueryExecution a tr qid = Inr ''QUEUED'' \<and>
      getQueryExecution a (tr @ [GetQueryExecution qid, SetTimeout 1000]) qid = Inr ''RUNNING'' \<and>
      getQueryExecution a (tr @ [GetQueryExecution qid, SetTimeout 1000,
                                 GetQueryExecution qid, SetTimeout 1000]) qid = Inr ''SUCCEEDED'' \<longrightarrow>
      waitForAthenaQuery a qid tr =
        Some (Resolved (Str qid),
              tr @ [GetQueryExecution qid, SetTimeout 1000, GetQueryExecution qid,
                    SetTimeout 1000, GetQueryExecution qid]) \<and>
      status_checks (tr @ [GetQueryExecution qid, SetTimeout 1000, GetQueryExecution qid,
                    SetTimeout 1000, GetQueryExecution qid]) = status_checks tr + 3)"
proof (intro conjI impI)
  assume "getQueryExecution a tr qid = Inr ''SUCCEEDED''"
  then show "waitForAthenaQuery a qid tr = Some (Resolved (Str qid), tr @ [GetQueryExecution qid])"
    unfolding waitForAthenaQuery_def by (subst isQueryComplete.simps) simp
next
  assume "getQueryExecution a tr qid = Inr ''FAILED''"
  then show "waitForAthenaQuery a qid tr =
        Some (Rejected (Reason ''Query status FAILED''), tr @ [GetQueryExecution qid])"
    unfolding waitForAthenaQuery_def by (subst isQueryComplete.simps) simp
next
  assume "getQueryExecution a tr qid = Inr ''CANCELLED''"
  then show "waitForAthenaQuery a qid tr =
        Some (Rejected (Reason ''Query status CANCELLED''), tr @ [GetQueryExecution qid])"
    unfolding waitForAthenaQuery_def by (subst isQueryComplete.simps) simp
next
  assume "getQueryExecution a tr qid = Inr ''RUNNING'' \<or> getQueryExecution a tr qid = Inr ''QUEUED''"
  then show "waitForAthenaQuery a qid tr =
        isQueryComplete a qid (tr @ [GetQueryExecution qid, SetTimeout 1000])"
    unfolding waitForAthenaQuery_def by (subst isQueryComplete.simps) auto
next
  let ?t1 = "tr @ [GetQueryExecution qid, SetTimeout 1000]"
  let ?t2 = "tr @ [GetQueryExecution qid, SetTimeout 1000, GetQueryExecution qid, SetTimeout 1000]"
  assume h: "getQueryExecution a tr qid = Inr ''QUEUED'' \<and>
      getQueryExecution a ?t1 qid = Inr ''RUNNING'' \<and>
      getQueryExecution a ?t2 qid = Inr ''SUCCEEDED''"
  have "isQueryComplete a qid tr = isQueryComplete a qid ?t1"
    using h by (subst isQueryComplete.simps) simp
  also have "\<dots> = isQueryComplete a qid ?t2"
    using h by (subst isQueryComplete.simps) simp
  also have "\<dots> = Some (Resolved (Str qid), ?t2 @ [GetQueryExecution qid])"
    using h by (subst isQueryComplete.simps) simp
  finally show "waitForAthenaQuery a qid tr =
        Some (Resolved (Str qid),
              tr @ [GetQueryExecution qid, SetTimeout 1000, GetQueryExecution qid,
                    SetTimeout 1000, GetQueryExecution qid])"
    by (simp add: waitForAthenaQuery_def)
qed (simp_all add: status_checks_def)

theorem waitForAthenaQuery_each_check_witness:
  "waitForAthenaQuery (mockService okSubmit [''SUCCEEDED''] Map.empty) ''q1'' [] =
     Some (Resolved (Str ''q1''), [GetQueryExecution ''q1''])
   \<and> waitForAthenaQuery (mockService okSubmit [''FAILED''] Map.empty) ''q1'' [] =
     Some (Rejected (Reason ''Query status FAILED''), [GetQueryExecution ''q1''])
   \<and> waitForAthenaQuery (mockService okSubmit [''CANCELLED''] Map.empty) ''q1'' [] =
     Some (Rejected (Reason ''Query status CANCELLED''), [GetQueryExecution ''q1''])
   \<and> waitForAthenaQuery (mockService okSubmit [''QUEUED'', ''RUNNING'', ''SUCCEEDED''] Map.empty) ''q1'' [] =
     Some (Resolved (Str ''q1''),
           [GetQueryExecution ''q1'', SetTimeout 1000, GetQueryExecution ''q1'',
            SetTimeout 1000, GetQueryExecution ''q1''])
   \<and> status_checks [GetQueryExecution ''q1'', SetTimeout 1000, GetQueryExecution ''q1'',
            SetTimeout 1000, GetQueryExecution ''q1''] = 3"
proof -
  let ?s = "mockService okSubmit [''SUCCEEDED''] Map.empty"
  let ?f = "mockService okSubmit [''FAILED''] Map.empty"
  let ?c = "mockService okSubmit [''CANCELLED''] Map.empty"
  let ?q = "mockService okSubmit [''QUEUED'', ''RUNNING'', ''SUCCEEDED''] Map.empty"
  have "getQueryExecution ?s [] ''q1'' = Inr ''SUCCEEDED''"
    by (simp add: mockService_def status_checks_def)
  with waitForAthenaQuery_each_check [of ?s "[]" "''q1''"]
  have s: "waitForAthenaQuery ?s ''q1'' [] = Some (Resolved (Str ''q1''), [GetQueryExecution ''q1''])"
    by simp
  have "getQueryExecution ?f [] ''q1'' = Inr ''FAILED''"
    by (simp add: mockService_def status_checks_def)
  with waitForAthenaQuery_each_check [of ?f "[]" "''q1''"]
  have f: "waitForAthenaQuery ?f ''q1'' [] =
     Some (Rejected (Reason ''Query status FAILED''), [GetQueryExecution ''q1''])"
    by simp
  have "getQueryExecution ?c [] ''q1'' = Inr ''CANCELLED''"
    by (simp add: mockService_def status_checks_def)
  with waitForAthenaQuery_each_check [of ?c "[]" "''q1''"]
  have c: "waitForAthenaQuery ?c ''q1'' [] =
     Some (Rejected (Reason ''Query status CANCELLED''), [GetQueryExecution ''q1''])"
    by simp
  have "getQueryExecution ?q [] ''q1'' = Inr ''QUEUED'' \<and>
      getQueryExecution ?q ([] @ [GetQueryExecution ''q1'', SetTimeout 1000]) ''q1'' = Inr ''RUNNING'' \<and>
      getQueryExecution ?q ([] @ [GetQueryExecution ''q1'', SetTimeout 1000,
                                 GetQueryExecution ''q1'', SetTimeout 1000]) ''q1'' = Inr ''SUCCEEDED''"
    by (simp add: mockService_def status_checks_def)
  with waitForAthenaQuery_each_check [of ?q "[]" "''q1''"]
  have q: "waitForAthenaQuery ?q ''q1'' [] =
     Some (Resolved (Str ''q1''),
           [] @ [GetQueryExecution ''q1'', SetTimeout 1000, GetQueryExecution ''q1'',
            SetTimeout 1000, GetQueryExecution ''q1''])"
    by blast
  from s f c q show ?thesis
    by (simp add: status_checks_def)
qed

lemma isQueryComplete_settles:
  "\<not> keeps_polling (getQueryExecution a (recheck_trace qid tr k) qid) \<Longrightarrow>
   isQueryComplete a qid tr \<noteq> None"
proof (induction k arbitrary: tr)
  case 0
  then have "\<not> keeps_polling (getQueryExecution a tr qid)"
    by (simp add: recheck_trace_def)
  then show ?case by (simp add: isQueryComplete_stop)
next
  case (Suc k)
  show ?case
  proof (cases "keeps_polling (getQueryExecution a tr qid)")
    case True
    from Suc.prems have "\<not> keeps_polling (getQueryExecution a
        (recheck_trace qid (tr @ [GetQueryExecution qid, SetTimeout 1000]) k) qid)"
      by (simp only: recheck_trace_Suc simp_thms)
    then have "isQueryComplete a qid (tr @ [GetQueryExecution qid, SetTimeout 1000]) \<noteq> None"
      by (rule Suc.IH)
    with isQueryComplete_recheck [OF True] show ?thesis by simp
  next
    case False
    then show ?thesis by (simp add: isQueryComplete_stop)
  qed
qed

text \<open>
  C10. For every observed state other than SUCCEEDED, RUNNING and QUEUED, whether one
  of the documented states or not, the poller rejects on that check through the
  default branch, and the trace ends with that check. A run that returns has checked
  again only after observing RUNNING or QUEUED, and a run that polls for ever observes
  RUNNING or QUEUED on every check.
\<close>

theorem waitForAthenaQuery_default_branch:
  "(getQueryExecution a tr qid = Inr state \<and>
      state \<noteq> ''SUCCEEDED'' \<and> state \<noteq> ''RUNNING'' \<and> state \<noteq> ''QUEUED'' \<longrightarrow>
      waitForAthenaQuery a qid tr =
        Some (Rejected (Reason (''Query status '' @ state)), tr @ [GetQueryExecution qid]))
   \<and> (waitForAthenaQuery a qid tr = Some r \<longrightarrow>
      (\<exists>k. (\<forall>j<k. getQueryExecution a (recheck_trace qid tr j) qid = Inr ''RUNNING'' \<or>
                    getQueryExecution a (recheck_trace qid tr j) qid = Inr ''QUEUED'') \<and>
           snd r = recheck_trace qid tr k @ [GetQueryExecution qid]))
   \<and> (waitForAthenaQuery a qid tr = None \<longrightarrow>
      (\<forall>k. getQueryExecution a (recheck_trace qid tr k) qid = Inr ''RUNNING'' \<or>
           getQueryExecution a (recheck_trace qid tr k) qid = Inr ''QUEUED''))"
proof (intro conjI impI)
  assume "getQueryExecution a tr qid = Inr state \<and>
      state \<noteq> ''SUCCEEDED'' \<and> state \<noteq> ''RUNNING'' \<and> state \<noteq> ''QUEUED''"
  then show "waitForAthenaQuery a qid tr =
        Some (Rejected (Reason (''Query status '' @ state)), tr @ [GetQueryExecution qid])"
    unfolding waitForAthenaQuery_def by (subst isQueryComplete.simps) simp
next
  assume "waitForAthenaQuery a qid tr = Some r"
  then have "isQueryComplete a qid tr = Some r"
    by (simp add: waitForAthenaQuery_def)
  from isQueryComplete_returns [OF this]
  show "\<exists>k. (\<forall>j<k. getQueryExecution a (recheck_trace qid tr j) qid = Inr ''RUNNING'' \<or>
                    getQueryExecution a (recheck_trace qid tr j) qid = Inr ''QUEUED'') \<and>
           snd r = recheck_trace qid tr k @ [GetQueryExecution qid]"
    unfolding keeps_polling_def by blast
next
  assume "waitForAthenaQuery a qid tr = None"
  then have none: "isQueryComplete a qid tr = None"
    by (simp add: waitForAthenaQuery_def)
  show "\<forall>k. getQueryExecution a (recheck_trace qid tr k) qid = Inr ''RUNNING'' \<or>
           getQueryExecution a (recheck_trace qid tr k) qid = Inr ''QUEUED''"
  proof
    fix k
    from none isQueryComplete_settles [of a qid tr k]
    have "keeps_polling (getQueryExecution a (recheck_trace qid tr k) qid)" by blast
    then show "getQueryExecution a (recheck_trace qid tr k) qid = Inr ''RUNNING'' \<or>
           getQueryExecution a (recheck_trace qid tr k) qid = Inr ''QUEUED''"
      by (simp add: keeps_polling_def)
  qed
qed

theorem waitForAthenaQuery_default_branch_witness:
  "waitForAthenaQuery (mockService okSubmit [''PAUSED''] Map.empty) ''q1'' [] =
     Some (Rejected (Reason ''Query status PAUSED''), [GetQueryExecution ''q1''])
   \<and> waitForAthenaQuery (mockService okSubmit [''QUEUED'', ''PAUSED''] Map.empty) ''q1'' [] =
     Some (Rejected (Reason ''Query status PAUSED''),
           [GetQueryExecution ''q1'', SetTimeout 1000, GetQueryExecution ''q1''])
   \<and> (\<exists>k. (\<forall>j<k. getQueryExecution (mockService okSubmit [''QUEUED'', ''PAUSED''] Map.empty)
                    (recheck_trace ''q1'' [] j) ''q1'' = Inr ''RUNNING'' \<or>
                  getQueryExecution (mockService okSubmit [''QUEUED'', ''PAUSED''] Map.empty)
                    (recheck_trace ''q1'' [] j) ''q1'' = Inr ''QUEUED'') \<and>
            [GetQueryExecution ''q1'', SetTimeout 1000, GetQueryExecution ''q1''] =
            recheck_trace ''q1'' [] k @ [GetQueryExecution ''q1''])
   \<and> waitForAthenaQuery alwaysRunning ''q1'' [] = None
   \<and> (\<forall>k. getQueryExecution alwaysRunning (recheck_trace ''q1'' [] k) ''q1'' = Inr ''RUNNING'' \<or>
           getQueryExecution alwaysRunning (recheck_trace ''q1'' [] k) ''q1'' = Inr ''QUEUED'')"
proof -
  let ?p = "mockService okSubmit [''PAUSED''] Map.empty"
  let ?q = "mockService okSubmit [''QUEUED'', ''PAUSED''] Map.empty"
  let ?qr = "(Rejected (Reason ''Query status PAUSED''),
           [GetQueryExecution ''q1'', SetTimeout 1000, GetQueryExecution ''q1''])"
  have "getQueryExecution ?p [] ''q1'' = Inr ''PAUSED''"
    by (simp add: mockService_def status_checks_def)
  with waitForAthenaQuery_default_branch [of ?p "[]" "''q1''" "''PAUSED''"]
  have p: "waitForAthenaQuery ?p ''q1'' [] =
     Some (Rejected (Reason ''Query status PAUSED''), [GetQueryExecution ''q1''])"
    by simp
  have "isQueryComplete ?q ''q1'' [] = isQueryComplete ?q ''q1'' [GetQueryExecution ''q1'', SetTimeout 1000]"
    by (subst isQueryComplete.simps) (simp add: mockService_def status_checks_def)
  also have "\<dots> = Some ?qr"
    by (subst isQueryComplete.simps) (simp add: mockService_def status_checks_def)
  finally have q: "waitForAthenaQuery ?q ''q1'' [] = Some ?qr"
    by (simp add: waitForAthenaQuery_def)
  with waitForAthenaQuery_default_branch [of ?q "[]" "''q1''" _ ?qr]
  have qk: "\<exists>k. (\<forall>j<k. getQueryExecution ?q (recheck_trace ''q1'' [] j) ''q1'' = Inr ''RUNNING'' \<or>
                  getQueryExecution ?q (recheck_trace ''q1'' [] j) ''q1'' = Inr ''QUEUED'') \<and>
            [GetQueryExecution ''q1'', SetTimeout 1000, GetQueryExecution ''q1''] =
            recheck_trace ''q1'' [] k @ [GetQueryExecution ''q1'']"
    by simp
  have r: "waitForAthenaQuery alwaysRunning ''q1'' [] = None"
  proof (cases "isQueryComplete alwaysRunning ''q1'' []")
    case None
    then show ?thesis by (simp add: waitForAthenaQuery_def)
  next
    case (Some r)
    from isQueryComplete_returns [OF this] show ?thesis
      by (simp add: alwaysRunning_def keeps_polling_def)
  qed
  with waitForAthenaQuery_default_branch [of alwaysRunning "[]" "''q1''"]
  have rk: "\<forall>k. getQueryExecution alwaysRunning (recheck_trace ''q1'' [] k) ''q1'' = Inr ''RUNNING'' \<or>
           getQueryExecution alwaysRunning (recheck_trace ''q1'' [] k) ''q1'' = Inr ''QUEUED''"
    by blast
  from p q qk r rk show ?thesis by blast
qed

section \<open>Validation of one definition\<close>

lemma msg_one_of_not_both: "msg_one_of n \<noteq> msg_not_both n"
proof
  assume "msg_one_of n = msg_not_both n"
  then have "length (msg_one_of n) = length (msg_not_both n)" by simp
  then show False by (simp add: msg_one_of_def msg_not_both_def)
qed

lemma validateAthenaTable_remote: "remote_calls (snd (validateAthenaTable n t tr)) = remote_calls tr"
  by (simp add: validateAthenaTable_def remote_calls_def)

text \<open>
  C6. Validation throws the error of the framework when neither the inline DDL nor
  the DDL file is given, throws it with a different message when both are given,
  throws it when OutputLocation is missing and when TableName is missing; in all
  these cases, and in every other, it makes no remote call. A definition that lacks
  only DatabaseName is accepted, and the only thing that happens is one logged
  warning. A field is given when it is truthy.
\<close>

theorem validateAthenaTable_rejects:
  "(\<not> truthy (DDLFile t) \<and> \<not> truthy (DDL t) \<longrightarrow>
      validateAthenaTable n t tr = (Thrown (ServerlessError (msg_one_of n)), tr))
   \<and> (truthy (DDLFile t) \<and> truthy (DDL t) \<longrightarrow>
      validateAthenaTable n t tr = (Thrown (ServerlessError (msg_not_both n)), tr))
   \<and> msg_one_of n \<noteq> msg_not_both n
   \<and> (\<not> truthy (OutputLocation t) \<longrightarrow>
      (\<exists>m. validateAthenaTable n t tr = (Thrown (ServerlessError m), tr)))
   \<and> (\<not> truthy (TableName t) \<longrightarrow>
      (\<exists>m. validateAthenaTable n t tr = (Thrown (ServerlessError m), tr)))
   \<and> remote_calls (snd (validateAthenaTable n t tr)) = remote_calls tr
   \<and> (truthy (DDLFile t) \<noteq> truthy (DDL t) \<and> truthy (OutputLocation t) \<and> truthy (TableName t) \<and>
      \<not> truthy (DatabaseName t) \<longrightarrow>
      validateAthenaTable n t tr = (Resolved Undefined, tr @ [Log (msg_database_name n)]))"
proof (intro conjI impI)
  show "msg_one_of n \<noteq> msg_not_both n" by (rule msg_one_of_not_both)
  show "remote_calls (snd (validateAthenaTable n t tr)) = remote_calls tr"
    by (rule validateAthenaTable_remote)
qed (auto simp: validateAthenaTable_def)

theorem validateAthenaTable_rejects_witness:
  "validateAthenaTable ''t1'' (goodTable\<lparr>DDL := None\<rparr>) [] =
     (Thrown (ServerlessError (msg_one_of ''t1'')), [])
   \<and> validateAthenaTable ''t1'' (goodTable\<lparr>DDLFile := Some ''t1.ddl''\<rparr>) [] =
     (Thrown (ServerlessError (msg_not_both ''t1'')), [])
   \<and> (\<exists>m. validateAthenaTable ''t1'' (goodTable\<lparr>OutputLocation := None\<rparr>) [] =
     (Thrown (ServerlessError m), []))
   \<and> (\<exists>m. validateAthenaTable ''t1'' (goodTable\<lparr>TableName := None\<rparr>) [] =
     (Thrown (ServerlessError m), []))
   \<and> validateAthenaTable ''t1'' (goodTable\<lparr>DatabaseName := None\<rparr>) [] =
     (Resolved Undefined, [Log (msg_database_name ''t1'')])"
  using validateAthenaTable_rejects [of "goodTable\<lparr>DDL := None\<rparr>" "''t1''" "[]"]
        validateAthenaTable_rejects [of "goodTable\<lparr>DDLFile := Some ''t1.ddl''\<rparr>" "''t1''" "[]"]
        validateAthenaTable_rejects [of "goodTable\<lparr>OutputLocation := None\<rparr>" "''t1''" "[]"]
        validateAthenaTable_rejects [of "goodTable\<lparr>TableName := None\<rparr>" "''t1''" "[]"]
        validateAthenaTable_rejects [of "goodTable\<lparr>DatabaseName := None\<rparr>" "''t1''" "[]"]
  by (simp add: goodTable_def truthy_def)

section \<open>Drop before create\<close>

lemma submissions_append: "submissions (xs @ ys) = submissions xs @ submissions ys"
  by (induction xs rule: submissions.induct) simp_all

lemma submissions_recheck: "submissions (recheck_trace qid tr k) = submissions tr"
  by (induction k arbitrary: tr) (simp_all add: recheck_trace_def submissions_append)

lemma fulfilled_settled: "fulfilled (settled qid r) \<longleftrightarrow> r = Inr ''SUCCEEDED''"
  by (auto simp: settled_def split: sum.splits)

lemma waitForAthenaQuery_run:
  assumes "waitForAthenaQuery a qid tr = Some (oc, tr')"
  shows "\<exists>polls. tr' = tr @ polls @ [GetQueryExecution qid] \<and> submissions polls = [] \<and>
           (fulfilled oc \<longleftrightarrow> getQueryExecution a (tr @ polls) qid = Inr ''SUCCEEDED'')"
proof -
  from assms have "isQueryComplete a qid tr = Some (oc, tr')"
    by (simp add: waitForAthenaQuery_def)
  from isQueryComplete_run [OF this] obtain k where
    k: "(oc, tr') = (settled qid (getQueryExecution a (recheck_trace qid tr k) qid),
            recheck_trace qid tr k @ [GetQueryExecution qid])"
    by blast
  let ?polls = "concat (replicate k [GetQueryExecution qid, SetTimeout 1000])"
  have eq: "recheck_trace qid tr k = tr @ ?polls" by (simp add: recheck_trace_def)
  have "submissions (tr @ ?polls) = submissions tr"
    using submissions_recheck [of qid tr k] by (simp only: eq)
  then have "submissions ?polls = []" by (simp add: submissions_append)
  moreover from k have "tr' = tr @ ?polls @ [GetQueryExecution qid]"
    by (simp add: eq)
  moreover from k have "fulfilled oc \<longleftrightarrow> getQueryExecution a (tr @ ?polls) qid = Inr ''SUCCEEDED''"
    by (simp add: eq fulfilled_settled)
  ultimately show ?thesis by blast
qed

lemma deleteAthenaTable_run:
  assumes "deleteAthenaTable a n t arg tr = Some (oc, tr')"
  shows "\<exists>polls. tr' = tr @ [dropLog n t, StartQueryExecution (dropParams (ifExistsArg arg) t)] @ polls \<and>
           submissions polls = [] \<and>
           (fulfilled oc \<longrightarrow> (\<exists>qid. polls \<noteq> [] \<and> last polls = GetQueryExecution qid \<and>
              getQueryExecution a (butlast tr') qid = Inr ''SUCCEEDED''))"
proof -
  let ?p = "dropParams (ifExistsArg arg) t"
  let ?tr1 = "tr @ [dropLog n t]"
  show ?thesis
  proof (cases "startQueryExecution a ?tr1 ?p")
    case (Inl e)
    with assms have "oc = Rejected e" "tr' = ?tr1 @ [StartQueryExecution ?p]"
      by (simp_all add: deleteAthenaTable_def dropLog_def Let_def)
    then show ?thesis by (intro exI [of _ "[]"]) simp
  next
    case (Inr qid)
    with assms have "waitForAthenaQuery a qid (?tr1 @ [StartQueryExecution ?p]) = Some (oc, tr')"
      by (simp add: deleteAthenaTable_def dropLog_def Let_def)
    from waitForAthenaQuery_run [OF this] obtain polls where
      polls: "tr' = (?tr1 @ [StartQueryExecution ?p]) @ polls @ [GetQueryExecution qid]"
        "submissions polls = []"
        "fulfilled oc \<longleftrightarrow> getQueryExecution a ((?tr1 @ [StartQueryExecution ?p]) @ polls) qid = Inr ''SUCCEEDED''"
      by blast
    from polls(1) have b: "butlast tr' = (?tr1 @ [StartQueryExecution ?p]) @ polls"
      by (simp add: butlast_append)
    show ?thesis
      using polls b
      by (intro exI [of _ "polls @ [GetQueryExecution qid]"]) (auto simp: submissions_append)
  qed
qed

lemma submitCreate_run:
  assumes "submitCreate a n t ddl tr = Some (oc, tr')"
  shows "\<exists>rest. tr' = tr @ rest \<and> submissions rest = [createParams t ddl]"
proof -
  let ?p = "createParams t ddl"
  let ?tr1 = "tr @ [Log (''Creating Athena table '' @ n @ ''...'')]"
  show ?thesis
  proof (cases "startQueryExecution a ?tr1 ?p")
    case (Inl e)
    with assms have "tr' = ?tr1 @ [StartQueryExecution ?p]"
      by (simp add: submitCreate_def Let_def)
    then show ?thesis
      by (intro exI [of _ "[Log (''Creating Athena table '' @ n @ ''...''), StartQueryExecution ?p]"]) simp
  next
    case (Inr qid)
    with assms have "waitForAthenaQuery a qid (?tr1 @ [StartQueryExecution ?p]) = Some (oc, tr')"
      by (simp add: submitCreate_def Let_def)
    from waitForAthenaQuery_run [OF this] obtain polls where
      "tr' = (?tr1 @ [StartQueryExecution ?p]) @ polls @ [GetQueryExecution qid]"
      "submissions polls = []"
      by blast
    then show ?thesis
      by (intro exI [of _ "[Log (''Creating Athena table '' @ n @ ''...''), StartQueryExecution ?p] @
                           polls @ [GetQueryExecution qid]"])
         (simp add: submissions_append)
  qed
qed

lemma readDDL_trace: "\<exists>rest. snd (readDDL a t tr) = tr @ rest \<and> submissions rest = []"
  by (auto simp: readDDL_def split: option.splits sum.splits)

lemma resolveAndCreate_run:
  assumes "resolveAndCreate a n t tr = Some (oc, tr')"
  shows "\<exists>rest. tr' = tr @ rest \<and> (submissions rest = [] \<or> (\<exists>ddl. submissions rest = [createParams t ddl]))"
proof -
  obtain r tr1 where rd: "readDDL a t tr = (r, tr1)" by (cases "readDDL a t tr")
  from readDDL_trace [of a t tr] rd obtain rest1 where
    r1: "tr1 = tr @ rest1" "submissions rest1 = []" by auto
  show ?thesis
  proof (cases r)
    case (Inl e)
    with assms rd have "tr' = tr1" by (simp add: resolveAndCreate_def)
    with r1 show ?thesis by blast
  next
    case (Inr ddl)
    show ?thesis
    proof (cases "substituteDDL t ddl")
      case (Inl e)
      with assms rd Inr have "tr' = tr1" by (simp add: resolveAndCreate_def)
      with r1 show ?thesis by blast
    next
      case (Inr ddl')
      with assms rd \<open>r = Inr ddl\<close> have "submitCreate a n t ddl' tr1 = Some (oc, tr')"
        by (simp add: resolveAndCreate_def)
      from submitCreate_run [OF this] obtain rest2 where
        "tr' = tr1 @ rest2" "submissions rest2 = [createParams t ddl']" by blast
      with r1 have "tr' = tr @ (rest1 @ rest2)" "submissions (rest1 @ rest2) = [createParams t ddl']"
        by (simp_all add: submissions_append)
      then show ?thesis by blast
    qed
  qed
qed

lemma createAthenaTable_valid:
  "validateAthenaTable n t tr = (Resolved u, tr0) \<Longrightarrow>
   createAthenaTable a n t tr =
     (case deleteAthenaTable a n t (Some True) tr0 of
        None \<Rightarrow> None
      | Some (oc2, tr2) \<Rightarrow>
          if fulfilled oc2 then resolveAndCreate a n t tr2 else Some (oc2, tr2))"
  by (simp add: createAthenaTable_def)

lemma validateAthenaTable_trace:
  "\<exists>logs. snd (validateAthenaTable n t tr) = tr @ logs \<and> submissions logs = []"
  by (simp add: validateAthenaTable_def)

lemma validateAthenaTable_valid_fields:
  "validateAthenaTable n t tr = (Resolved u, tr0) \<Longrightarrow>
   truthy (OutputLocation t) \<and> truthy (TableName t) \<and> truthy (DDLFile t) \<noteq> truthy (DDL t)"
  by (auto simp: validateAthenaTable_def split: if_splits)

lemma dropQuery_True: "dropQuery True t = ''DROP TABLE IF EXISTS '' @ template (TableName t)"
  by (simp add: dropQuery_def)

text \<open>
  C5. For every valid table definition, in every run of createAthenaTable that
  returns, the first query submitted is DROP TABLE IF EXISTS with the TableName of
  the definition, and any further submission (the CREATE query) comes after the
  whole of the drop, whose last status check observed SUCCEEDED. A run that does not
  return either polls the drop for ever, or has finished the drop in the same way
  and does not return from the create.
\<close>

theorem createAthenaTable_drop_precedes_create:
  "validateAthenaTable n t tr = (Resolved u, tr0) \<Longrightarrow>
   (\<exists>name. TableName t = Some name \<and>
      QueryString (dropParams True t) = Some (''DROP TABLE IF EXISTS '' @ name))
   \<and> (createAthenaTable a n t tr = Some (oc, tr') \<longrightarrow>
      (\<exists>oc2 tr2 rest.
         deleteAthenaTable a n t (Some True) tr0 = Some (oc2, tr2) \<and>
         submissions tr2 = submissions tr @ [dropParams True t] \<and>
         tr' = tr2 @ rest \<and>
         (submissions rest \<noteq> [] \<longrightarrow>
            (\<exists>qid. last tr2 = GetQueryExecution qid \<and>
               getQueryExecution a (butlast tr2) qid = Inr ''SUCCEEDED''))))
   \<and> (createAthenaTable a n t tr = None \<longrightarrow>
      deleteAthenaTable a n t (Some True) tr0 = None \<or>
      (\<exists>oc2 tr2 qid.
         deleteAthenaTable a n t (Some True) tr0 = Some (oc2, tr2) \<and>
         submissions tr2 = submissions tr @ [dropParams True t] \<and>
         last tr2 = GetQueryExecution qid \<and>
         getQueryExecution a (butlast tr2) qid = Inr ''SUCCEEDED'' \<and>
         resolveAndCreate a n t tr2 = None))"
proof (intro conjI impI)
  assume valid: "validateAthenaTable n t tr = (Resolved u, tr0)"
  from validateAthenaTable_valid_fields [OF valid] have "truthy (TableName t)" by simp
  then obtain name where "TableName t = Some name"
    by (auto simp: truthy_def split: option.splits)
  then show "\<exists>name. TableName t = Some name \<and>
      QueryString (dropParams True t) = Some (''DROP TABLE IF EXISTS '' @ name)"
    by (simp add: dropParams_def dropQuery_True template_def)
next
  assume valid: "validateAthenaTable n t tr = (Resolved u, tr0)"
    and run: "createAthenaTable a n t tr = Some (oc, tr')"
  from validateAthenaTable_trace [of n t tr] valid have sub0: "submissions tr0 = submissions tr"
    by (auto simp: submissions_append)
  from run createAthenaTable_valid [OF valid, of a]
  obtain oc2 tr2 where del: "deleteAthenaTable a n t (Some True) tr0 = Some (oc2, tr2)"
    and rest: "(if fulfilled oc2 then resolveAndCreate a n t tr2 else Some (oc2, tr2)) = Some (oc, tr')"
    by (auto split: option.splits)
  from deleteAthenaTable_run [OF del] obtain polls where
    polls: "tr2 = tr0 @ [dropLog n t, StartQueryExecution (dropParams (ifExistsArg (Some True)) t)] @ polls"
      "submissions polls = []"
      "fulfilled oc2 \<longrightarrow> (\<exists>qid. polls \<noteq> [] \<and> last polls = GetQueryExecution qid \<and>
              getQueryExecution a (butlast tr2) qid = Inr ''SUCCEEDED'')"
    by blast
  from polls(1,2) sub0 have sub2: "submissions tr2 = submissions tr @ [dropParams True t]"
    by (simp add: submissions_append dropLog_def ifExistsArg_def)
  show "\<exists>oc2 tr2 rest.
         deleteAthenaTable a n t (Some True) tr0 = Some (oc2, tr2) \<and>
         submissions tr2 = submissions tr @ [dropParams True t] \<and>
         tr' = tr2 @ rest \<and>
         (submissions rest \<noteq> [] \<longrightarrow>
            (\<exists>qid. last tr2 = GetQueryExecution qid \<and>
               getQueryExecution a (butlast tr2) qid = Inr ''SUCCEEDED''))"
  proof (cases "fulfilled oc2")
    case False
    with rest have "tr' = tr2 @ []" by simp
    with del sub2 show ?thesis by (intro exI [of _ oc2] exI [of _ tr2] exI [of _ "[]"]) simp
  next
    case True
    with rest have "resolveAndCreate a n t tr2 = Some (oc, tr')" by simp
    from resolveAndCreate_run [OF this] obtain rest' where r: "tr' = tr2 @ rest'" by blast
    from True polls(3) obtain qid where "polls \<noteq> []" "last polls = GetQueryExecution qid"
      "getQueryExecution a (butlast tr2) qid = Inr ''SUCCEEDED''" by blast
    with polls(1) have "last tr2 = GetQueryExecution qid \<and>
      getQueryExecution a (butlast tr2) qid = Inr ''SUCCEEDED''" by simp
    with del sub2 r show ?thesis by blast
  qed
next
  assume valid: "validateAthenaTable n t tr = (Resolved u, tr0)"
    and run: "createAthenaTable a n t tr = None"
  from validateAthenaTable_trace [of n t tr] valid have sub0: "submissions tr0 = submissions tr"
    by (auto simp: submissions_append)
  show "deleteAthenaTable a n t (Some True) tr0 = None \<or>
      (\<exists>oc2 tr2 qid.
         deleteAthenaTable a n t (Some True) tr0 = Some (oc2, tr2) \<and>
         submissions tr2 = submissions tr @ [dropParams True t] \<and>
         last tr2 = GetQueryExecution qid \<and>
         getQueryExecution a (butlast tr2) qid = Inr ''SUCCEEDED'' \<and>
         resolveAndCreate a n t tr2 = None)"
  proof (cases "deleteAthenaTable a n t (Some True) tr0")
    case None
    then show ?thesis by simp
  next
    case (Some r)
    obtain oc2 tr2 where r: "r = (oc2, tr2)" by (cases r)
    with Some have del: "deleteAthenaTable a n t (Some True) tr0 = Some (oc2, tr2)" by simp
    with run createAthenaTable_valid [OF valid, of a]
    have f: "fulfilled oc2" and rc: "resolveAndCreate a n t tr2 = None"
      by (auto split: if_splits)
    from deleteAthenaTable_run [OF del] obtain polls where
      polls: "tr2 = tr0 @ [dropLog n t, StartQueryExecution (dropParams (ifExistsArg (Some True)) t)] @ polls"
        "submissions polls = []"
        "fulfilled oc2 \<longrightarrow> (\<exists>qid. polls \<noteq> [] \<and> last polls = GetQueryExecution qid \<and>
              getQueryExecution a (butlast tr2) qid = Inr ''SUCCEEDED'')"
      by blast
    from polls(1,2) sub0 have sub2: "submissions tr2 = submissions tr @ [dropParams True t]"
      by (simp add: submissions_append dropLog_def ifExistsArg_def)
    from f polls(3) obtain qid where "polls \<noteq> []" "last polls = GetQueryExecution qid"
      "getQueryExecution a (butlast tr2) qid = Inr ''SUCCEEDED''" by blast
    with polls(1) have "last tr2 = GetQueryExecution qid \<and>
      getQueryExecution a (butlast tr2) qid = Inr ''SUCCEEDED''" by simp
    with del sub2 rc show ?thesis by blast
  qed
qed

lemma alwaysRunning_never_returns: "isQueryComplete alwaysRunning qid tr = None"
proof (cases "isQueryComplete alwaysRunning qid tr")
  case None
  then show ?thesis .
next
  case (Some r)
  from isQueryComplete_returns [OF this] show ?thesis
    by (simp add: alwaysRunning_def keeps_polling_def)
qed

lemma goodTable_valid: "validateAthenaTable ''t1'' goodTable tr = (Resolved Undefined, tr)"
  by (simp add: validateAthenaTable_def goodTable_def truthy_def)

lemma twoSucceeded_drop:
  "deleteAthenaTable twoSucceeded ''t1'' goodTable (Some True) [] =
     Some (Resolved (Str ''q1''),
       [Log ''Removing Athena table t1 (t1)...'',
        StartQueryExecution (dropParams True goodTable),
        GetQueryExecution ''q1''])"
  by (simp add: deleteAthenaTable_def Let_def twoSucceeded_def mockService_def okSubmit_def
      waitForAthenaQuery_def isQueryComplete_stop keeps_polling_def settled_def status_checks_def
      ifExistsArg_def goodTable_def template_def)

lemma goodTable_ddl:
  "substituteDDL goodTable (DDL goodTable) =
     Inr (Some ''CREATE EXTERNAL TABLE t1 (name string) LOCATION s3://bucket/path'')"
  by (simp add: substituteDDL_def goodTable_def js_replace_def token_def)

lemma twoSucceeded_create:
  "createAthenaTable twoSucceeded ''t1'' goodTable [] =
     Some (Resolved (Str ''q1''),
       [Log ''Removing Athena table t1 (t1)...'',
        StartQueryExecution (dropParams True goodTable),
        GetQueryExecution ''q1''] @
       [Log ''Creating Athena table t1...'',
        StartQueryExecution (createParams goodTable
          (Some ''CREATE EXTERNAL TABLE t1 (name string) LOCATION s3://bucket/path'')),
        GetQueryExecution ''q1''])"
proof -
  have rd: "readDDL twoSucceeded goodTable tr = (Inr (DDL goodTable), tr)" for tr
    by (simp add: readDDL_def goodTable_def)
  have sc: "submitCreate twoSucceeded ''t1'' goodTable ddl
       [Log ''Removing Athena table t1 (t1)...'',
        StartQueryExecution (dropParams True goodTable),
        GetQueryExecution ''q1''] =
     Some (Resolved (Str ''q1''),
       [Log ''Removing Athena table t1 (t1)...'',
        StartQueryExecution (dropParams True goodTable),
        GetQueryExecution ''q1'',
        Log ''Creating Athena table t1...'',
        StartQueryExecution (createParams goodTable ddl),
        GetQueryExecution ''q1''])" for ddl
    by (simp add: submitCreate_def Let_def twoSucceeded_def mockService_def okSubmit_def
        waitForAthenaQuery_def isQueryComplete_stop keeps_polling_def settled_def status_checks_def)
  show ?thesis
    by (simp add: createAthenaTable_valid [OF goodTable_valid] twoSucceeded_drop
        resolveAndCreate_def rd goodTable_ddl sc)
qed

lemma alwaysRunning_submit: "startQueryExecution alwaysRunning tr p = Inr ''q1''"
  by (simp add: alwaysRunning_def)

lemma alwaysRunning_create: "createAthenaTable alwaysRunning ''t1'' goodTable [] = None"
  by (simp add: createAthenaTable_valid [OF goodTable_valid] deleteAthenaTable_def Let_def
      waitForAthenaQuery_def alwaysRunning_never_returns alwaysRunning_submit)

theorem createAthenaTable_drop_precedes_create_witness:
  "validateAthenaTable ''t1'' goodTable [] = (Resolved Undefined, [])
   \<and> (\<exists>name. TableName goodTable = Some name \<and>
      QueryString (dropParams True goodTable) = Some (''DROP TABLE IF EXISTS '' @ name))
   \<and> createAthenaTable twoSucceeded ''t1'' goodTable [] \<noteq> None
   \<and> (\<exists>oc2 tr2 rest.
         deleteAthenaTable twoSucceeded ''t1'' goodTable (Some True) [] = Some (oc2, tr2) \<and>
         submissions tr2 = submissions [] @ [dropParams True goodTable] \<and>
         [Log ''Removing Athena table t1 (t1)...'',
          StartQueryExecution (dropParams True goodTable),
          GetQueryExecution ''q1''] @
         [Log ''Creating Athena table t1...'',
          StartQueryExecution (createParams goodTable
            (Some ''CREATE EXTERNAL TABLE t1 (name string) LOCATION s3://bucket/path'')),
          GetQueryExecution ''q1''] = tr2 @ rest \<and>
         (submissions rest \<noteq> [] \<longrightarrow>
            (\<exists>qid. last tr2 = GetQueryExecution qid \<and>
               getQueryExecution twoSucceeded (butlast tr2) qid = Inr ''SUCCEEDED'')))
   \<and> createAthenaTable alwaysRunning ''t1'' goodTable [] = None
   \<and> (deleteAthenaTable alwaysRunning ''t1'' goodTable (Some True) [] = None \<or>
      (\<exists>oc2 tr2 qid.
         deleteAthenaTable alwaysRunning ''t1'' goodTable (Some True) [] = Some (oc2, tr2) \<and>
         submissions tr2 = submissions [] @ [dropParams True goodTable] \<and>
         last tr2 = GetQueryExecution qid \<and>
         getQueryExecution alwaysRunning (butlast tr2) qid = Inr ''SUCCEEDED'' \<and>
         resolveAndCreate alwaysRunning ''t1'' goodTable tr2 = None))"
proof (intro conjI)
  note two = createAthenaTable_drop_precedes_create [where a = twoSucceeded, OF goodTable_valid [of "[]"]]
  note run = createAthenaTable_drop_precedes_create [where a = alwaysRunning, OF goodTable_valid [of "[]"]]
  show "validateAthenaTable ''t1'' goodTable [] = (Resolved Undefined, [])"
    by (rule goodTable_valid)
  show "\<exists>name. TableName goodTable = Some name \<and>
      QueryString (dropParams True goodTable) = Some (''DROP TABLE IF EXISTS '' @ name)"
    by (rule two [THEN conjunct1])
  show "createAthenaTable twoSucceeded ''t1'' goodTable [] \<noteq> None"
    by (simp add: twoSucceeded_create)
  show "\<exists>oc2 tr2 rest.
         deleteAthenaTable twoSucceeded ''t1'' goodTable (Some True) [] = Some (oc2, tr2) \<and>
         submissions tr2 = submissions [] @ [dropParams True goodTable] \<and>
         [Log ''Removing Athena table t1 (t1)...'',
          StartQueryExecution (dropParams True goodTable),
          GetQueryExecution ''q1''] @
         [Log ''Creating Athena table t1...'',
          StartQueryExecution (createParams goodTable
            (Some ''CREATE EXTERNAL TABLE t1 (name string) LOCATION s3://bucket/path'')),
          GetQueryExecution ''q1''] = tr2 @ rest \<and>
         (submissions rest \<noteq> [] \<longrightarrow>
            (\<exists>qid. last tr2 = GetQueryExecution qid \<and>
               getQueryExecution twoSucceeded (butlast tr2) qid = Inr ''SUCCEEDED''))"
    by (rule two [THEN conjunct2, THEN conjunct1, THEN mp, OF twoSucceeded_create])
  show "createAthenaTable alwaysRunning ''t1'' goodTable [] = None"
    by (rule alwaysRunning_create)
  show "deleteAthenaTable alwaysRunning ''t1'' goodTable (Some True) [] = None \<or>
      (\<exists>oc2 tr2 qid.
         deleteAthenaTable alwaysRunning ''t1'' goodTable (Some True) [] = Some (oc2, tr2) \<and>
         submissions tr2 = submissions [] @ [dropParams True goodTable] \<and>
         last tr2 = GetQueryExecution qid \<and>
         getQueryExecution alwaysRunning (butlast tr2) qid = Inr ''SUCCEEDED'' \<and>
         resolveAndCreate alwaysRunning ''t1'' goodTable tr2 = None)"
    by (rule run [THEN conjunct2, THEN conjunct2, THEN mp, OF alwaysRunning_create])
qed

section \<open>Batches stop at the first failure\<close>

lemma rejection_not_fulfilled: "\<not> completed oc \<Longrightarrow> \<not> fulfilled (rejection oc)"
  by (cases oc) simp_all

lemma failure_not_completed: "failure oc \<Longrightarrow> \<not> completed oc"
  by (cases oc) simp_all

lemma mapSerial_append:
  "mapSerial f (xs @ ys) tr =
     (case mapSerial f xs tr of
        None \<Rightarrow> None
      | Some (oc, tr1) \<Rightarrow> if fulfilled oc then mapSerial f ys tr1 else Some (oc, tr1))"
proof (induction xs arbitrary: tr)
  case Nil
  show ?case by simp
next
  case (Cons x xs)
  show ?case
  proof (cases "f x tr")
    case None
    then show ?thesis by simp
  next
    case (Some r)
    obtain oc tr1 where r: "r = (oc, tr1)" by (cases r)
    show ?thesis
    proof (cases "completed oc")
      case True
      with Some r Cons.IH [of tr1] show ?thesis by simp
    next
      case False
      with Some r rejection_not_fulfilled [OF False] show ?thesis by simp
    qed
  qed
qed

lemma mapSerial_abort:
  assumes "mapSerial f done tr = Some (Resolved Undefined, tr1)"
    and "f x tr1 = Some (oc, tr2)" and "\<not> completed oc"
  shows "mapSerial f (done @ x # later) tr = Some (rejection oc, tr2)"
  using assms by (simp add: mapSerial_append)

lemma promiseMapOrder_Cons: "promiseMapOrder (x # rest) = x # rev rest"
  by (simp add: promiseMapOrder_def)

lemma promiseMapOrder_short: "length ts \<le> 2 \<Longrightarrow> promiseMapOrder ts = ts"
proof (cases ts)
  case Nil
  then show ?thesis by (simp add: promiseMapOrder_def)
next
  case (Cons x rest)
  assume "length ts \<le> 2"
  with Cons have "length rest \<le> 1" by simp
  then have "rev rest = rest" by (cases rest) simp_all
  with Cons show ?thesis by (simp add: promiseMapOrder_def)
qed

lemma promiseMapOrder_length: "length (promiseMapOrder ts) = length ts"
  by (cases ts) (simp_all add: promiseMapOrder_def)

lemma createAthenaTables_alt:
  "createAthenaTables a ts tr =
     (case mapSerial (createMapper a) (promiseMapOrder ts) tr of
        None \<Rightarrow> None
      | Some (oc, tr1) \<Rightarrow>
          if fulfilled oc then
            Some (Resolved Undefined, tr1 @ [Log ''Athena tables created successfully.''])
          else Some (oc, tr1))"
  unfolding createAthenaTables_def promiseMap_def by (rule refl)

lemma deleteAthenaTables_alt:
  "deleteAthenaTables a ts tr =
     (case mapSerial (deleteMapper a) (promiseMapOrder ts) tr of
        None \<Rightarrow> None
      | Some (oc, tr1) \<Rightarrow>
          if fulfilled oc then
            Some (Resolved Undefined, tr1 @ [Log ''Athena tables deleted successfully.''])
          else Some (oc, tr1))"
  unfolding deleteAthenaTables_def promiseMap_def by (rule refl)

lemma runs_in_turn_nonempty: "runs_in_turn f xs trs \<Longrightarrow> trs \<noteq> []"
  by (cases xs) auto

lemma runs_in_turn_Cons:
  assumes "f x tr = Some (oc, tr1)" and "completed oc"
    and "runs_in_turn f xs trs" and "hd trs = tr1"
  shows "runs_in_turn f (x # xs) (tr # trs)"
proof -
  from runs_in_turn_nonempty [OF assms(3)] assms(4) obtain rest where "trs = tr1 # rest"
    by (cases trs) auto
  with assms show ?thesis by simp
qed

lemma runs_in_turn_mapSerial:
  "runs_in_turn f xs trs \<Longrightarrow> mapSerial f xs (hd trs) = Some (Resolved Undefined, last trs)"
proof (induction f xs trs rule: runs_in_turn.induct)
  case (1 f trs)
  then obtain tr where "trs = [tr]" by (cases trs) auto
  then show ?case by simp
next
  case (2 f x xs tr tr1 trs)
  then show ?case by (auto split: option.splits)
qed simp_all

lemma mapSerial_runs:
  "mapSerial f xs tr = Some (oc, tr') \<Longrightarrow> fulfilled oc \<Longrightarrow>
   \<exists>trs. runs_in_turn f xs trs \<and> hd trs = tr \<and> last trs = tr'"
proof (induction xs arbitrary: tr)
  case Nil
  then show ?case by (intro exI [of _ "[tr]"]) simp
next
  case (Cons x xs)
  from Cons.prems obtain oc1 tr1 where step: "f x tr = Some (oc1, tr1)"
    by (cases "f x tr") auto
  have c: "completed oc1"
  proof (rule ccontr)
    assume n: "\<not> completed oc1"
    with Cons.prems(1) step have "oc = rejection oc1" by simp
    with rejection_not_fulfilled [OF n] Cons.prems(2) show False by simp
  qed
  with Cons.prems(1) step have "mapSerial f xs tr1 = Some (oc, tr')" by simp
  from Cons.IH [OF this Cons.prems(2)] obtain trs where
    trs: "runs_in_turn f xs trs" "hd trs = tr1" "last trs = tr'" by blast
  from runs_in_turn_nonempty [OF trs(1)] trs(3) have "last (tr # trs) = tr'" by simp
  with runs_in_turn_Cons [OF step c trs(1,2)] show ?case
    by (intro exI [of _ "tr # trs"]) simp
qed

lemma mapSerial_stops:
  "mapSerial f xs tr = Some (oc, tr') \<Longrightarrow> \<not> fulfilled oc \<Longrightarrow>
   \<exists>done x later trs oc1. xs = done @ x # later \<and> runs_in_turn f done trs \<and> hd trs = tr \<and>
     f x (last trs) = Some (oc1, tr') \<and> \<not> completed oc1 \<and> oc = rejection oc1"
proof (induction xs arbitrary: tr)
  case Nil
  then show ?case by auto
next
  case (Cons x xs)
  from Cons.prems obtain oc1 tr1 where step: "f x tr = Some (oc1, tr1)"
    by (cases "f x tr") auto
  show ?case
  proof (cases "completed oc1")
    case False
    with Cons.prems(1) step have "oc = rejection oc1" "tr' = tr1" by simp_all
    with step False have "x # xs = [] @ x # xs \<and> runs_in_turn f [] [tr] \<and> hd [tr] = tr \<and>
        f x (last [tr]) = Some (oc1, tr') \<and> \<not> completed oc1 \<and> oc = rejection oc1"
      by simp
    then show ?thesis by blast
  next
    case True
    with Cons.prems(1) step have "mapSerial f xs tr1 = Some (oc, tr')" by simp
    from Cons.IH [OF this Cons.prems(2)] obtain "done" y later trs oc2 where
      d: "xs = done @ y # later" "runs_in_turn f done trs" "hd trs = tr1"
         "f y (last trs) = Some (oc2, tr')" "\<not> completed oc2" "oc = rejection oc2"
      by blast
    from runs_in_turn_nonempty [OF d(2)] have "last (tr # trs) = last trs" by simp
    with d runs_in_turn_Cons [OF step True d(2,3)]
    have "x # xs = (x # done) @ y # later \<and> runs_in_turn f (x # done) (tr # trs) \<and>
        hd (tr # trs) = tr \<and> f y (last (tr # trs)) = Some (oc2, tr') \<and> \<not> completed oc2 \<and>
        oc = rejection oc2"
      by simp
    then show ?thesis by blast
  qed
qed

lemma mapSerial_diverges:
  "mapSerial f xs tr = None \<Longrightarrow>
   \<exists>done x later trs. xs = done @ x # later \<and> runs_in_turn f done trs \<and> hd trs = tr \<and>
     f x (last trs) = None"
proof (induction xs arbitrary: tr)
  case Nil
  then show ?case by simp
next
  case (Cons x xs)
  show ?case
  proof (cases "f x tr")
    case None
    then have "x # xs = [] @ x # xs \<and> runs_in_turn f [] [tr] \<and> hd [tr] = tr \<and>
        f x (last [tr]) = None"
      by simp
    then show ?thesis by blast
  next
    case (Some r)
    obtain oc1 tr1 where r: "r = (oc1, tr1)" by (cases r)
    with Some have step: "f x tr = Some (oc1, tr1)" by simp
    with Cons.prems have c: "completed oc1" and rest: "mapSerial f xs tr1 = None"
      by (auto split: if_splits)
    from Cons.IH [OF rest] obtain "done" y later trs where
      d: "xs = done @ y # later" "runs_in_turn f done trs" "hd trs = tr1" "f y (last trs) = None"
      by blast
    from runs_in_turn_nonempty [OF d(2)] have "last (tr # trs) = last trs" by simp
    with d runs_in_turn_Cons [OF step c d(2,3)]
    have "x # xs = (x # done) @ y # later \<and> runs_in_turn f (x # done) (tr # trs) \<and>
        hd (tr # trs) = tr \<and> f y (last (tr # trs)) = None"
      by simp
    then show ?thesis by blast
  qed
qed

lemma mapSerial_aborts:
  assumes "xs = done @ x # later" and "runs_in_turn f done trs" and "hd trs = tr"
    and "f x (last trs) = Some (oc, tr2)" and "\<not> completed oc"
  shows "mapSerial f xs tr = Some (rejection oc, tr2)"
proof -
  from runs_in_turn_mapSerial [OF assms(2)] assms(3)
  have "mapSerial f done tr = Some (Resolved Undefined, last trs)" by simp
  from mapSerial_abort [OF this assms(4,5)] assms(1) show ?thesis by simp
qed

lemma mapSerial_fulfilled: "mapSerial f xs tr = Some (oc, tr') \<Longrightarrow> fulfilled oc \<Longrightarrow> oc = Resolved Undefined"
proof (induction xs arbitrary: tr)
  case Nil
  then show ?case by simp
next
  case (Cons x xs)
  from Cons.prems obtain oc1 tr1 where step: "f x tr = Some (oc1, tr1)"
    by (cases "f x tr") auto
  show ?case
  proof (cases "completed oc1")
    case True
    with Cons.prems step Cons.IH [of tr1] show ?thesis by simp
  next
    case False
    with Cons.prems step rejection_not_fulfilled [OF False] show ?thesis by simp
  qed
qed

lemma batch_cases:
  assumes alt: "\<And>ts tr. batch ts tr =
     (case mapSerial f (promiseMapOrder ts) tr of
        None \<Rightarrow> None
      | Some (oc, tr1) \<Rightarrow>
          if fulfilled oc then Some (Resolved Undefined, tr1 @ [Log msg]) else Some (oc, tr1))"
  shows "(runs_in_turn f (promiseMapOrder ts) trs \<and> hd trs = tr \<longrightarrow>
      batch ts tr = Some (Resolved Undefined, last trs @ [Log msg]))
   \<and> (batch ts tr = Some (oc, tr') \<and> fulfilled oc \<longrightarrow>
      oc = Resolved Undefined \<and>
      (\<exists>trs. runs_in_turn f (promiseMapOrder ts) trs \<and> hd trs = tr \<and> tr' = last trs @ [Log msg]))
   \<and> (promiseMapOrder ts = finished @ x # later \<and> runs_in_turn f finished trs \<and> hd trs = tr \<and>
      f x (last trs) = Some (oc, tr') \<and> \<not> completed oc \<longrightarrow>
      batch ts tr = Some (rejection oc, tr'))
   \<and> (batch ts tr = Some (oc, tr') \<and> \<not> fulfilled oc \<longrightarrow>
      (\<exists>finished x later trs oc1. promiseMapOrder ts = finished @ x # later \<and>
         runs_in_turn f finished trs \<and> hd trs = tr \<and>
         f x (last trs) = Some (oc1, tr') \<and> \<not> completed oc1 \<and> oc = rejection oc1))
   \<and> (batch ts tr = None \<longrightarrow>
      (\<exists>finished x later trs. promiseMapOrder ts = finished @ x # later \<and>
         runs_in_turn f finished trs \<and> hd trs = tr \<and> f x (last trs) = None))"
proof (intro conjI impI)
  assume "runs_in_turn f (promiseMapOrder ts) trs \<and> hd trs = tr"
  with runs_in_turn_mapSerial [of f "promiseMapOrder ts" trs]
  show "batch ts tr = Some (Resolved Undefined, last trs @ [Log msg])"
    by (simp add: alt)
next
  assume h: "batch ts tr = Some (oc, tr') \<and> fulfilled oc"
  then obtain oc1 tr1 where m: "mapSerial f (promiseMapOrder ts) tr = Some (oc1, tr1)"
    by (auto simp: alt split: option.splits)
  with h have f1: "fulfilled oc1" and e: "oc = Resolved Undefined" "tr' = tr1 @ [Log msg]"
    by (auto simp: alt split: if_splits)
  from e show "oc = Resolved Undefined" by simp
  from mapSerial_runs [OF m f1] e
  show "\<exists>trs. runs_in_turn f (promiseMapOrder ts) trs \<and> hd trs = tr \<and> tr' = last trs @ [Log msg]"
    by auto
next
  assume h: "promiseMapOrder ts = finished @ x # later \<and> runs_in_turn f finished trs \<and> hd trs = tr \<and>
      f x (last trs) = Some (oc, tr') \<and> \<not> completed oc"
  then have "mapSerial f (promiseMapOrder ts) tr = Some (rejection oc, tr')"
    using mapSerial_aborts [of "promiseMapOrder ts" finished x later f trs tr oc tr'] by blast
  with h rejection_not_fulfilled [of oc]
  show "batch ts tr = Some (rejection oc, tr')" by (simp add: alt)
next
  assume h: "batch ts tr = Some (oc, tr') \<and> \<not> fulfilled oc"
  then have "mapSerial f (promiseMapOrder ts) tr = Some (oc, tr')"
    by (auto simp: alt split: option.splits if_splits)
  from mapSerial_stops [OF this] h
  show "\<exists>finished x later trs oc1. promiseMapOrder ts = finished @ x # later \<and>
         runs_in_turn f finished trs \<and> hd trs = tr \<and>
         f x (last trs) = Some (oc1, tr') \<and> \<not> completed oc1 \<and> oc = rejection oc1"
    by blast
next
  assume "batch ts tr = None"
  then have "mapSerial f (promiseMapOrder ts) tr = None"
    by (auto simp: alt split: option.splits if_splits)
  from mapSerial_diverges [OF this]
  show "\<exists>finished x later trs. promiseMapOrder ts = finished @ x # later \<and>
         runs_in_turn f finished trs \<and> hd trs = tr \<and> f x (last trs) = None"
    by blast
qed

text \<open>
  C4. Both batch operations process the tables one at a time, each operation
  starting where the one before it ended, in the order in which Promise.map calls
  its mapper: the first entry of the mapping, then the others from the last to the
  second; that is mapping order for at most two tables. When every operation
  completes, the batch logs its success line after the last one, and a fulfilled
  batch has run every operation in that way. The first operation that does not
  complete aborts the batch: a failure rejects the batch with that error, the trace
  of the batch ends where that operation ended, so no table after it in that order
  is attempted and nothing is undone; a batch that ends unfulfilled, and a batch
  that never returns, ran the operations before the one it stopped at in turn.
\<close>

theorem batch_aborts_at_first_failure:
  "((runs_in_turn (createMapper a) (promiseMapOrder ts) trs \<and> hd trs = tr \<longrightarrow>
      createAthenaTables a ts tr =
        Some (Resolved Undefined, last trs @ [Log ''Athena tables created successfully.'']))
   \<and> (createAthenaTables a ts tr = Some (oc, tr') \<and> fulfilled oc \<longrightarrow>
      oc = Resolved Undefined \<and>
      (\<exists>trs. runs_in_turn (createMapper a) (promiseMapOrder ts) trs \<and> hd trs = tr \<and>
         tr' = last trs @ [Log ''Athena tables created successfully.'']))
   \<and> (promiseMapOrder ts = done @ (n, t) # later \<and> runs_in_turn (createMapper a) done trs \<and>
      hd trs = tr \<and> createAthenaTable a n t (last trs) = Some (oc, tr') \<and> \<not> completed oc \<longrightarrow>
      createAthenaTables a ts tr = Some (rejection oc, tr'))
   \<and> (createAthenaTables a ts tr = Some (oc, tr') \<and> \<not> fulfilled oc \<longrightarrow>
      (\<exists>done tableEntry later trs oc1. promiseMapOrder ts = done @ tableEntry # later \<and>
         runs_in_turn (createMapper a) done trs \<and> hd trs = tr \<and>
         createAthenaTable a (fst tableEntry) (snd tableEntry) (last trs) = Some (oc1, tr') \<and>
         \<not> completed oc1 \<and> oc = rejection oc1))
   \<and> (createAthenaTables a ts tr = None \<longrightarrow>
      (\<exists>done tableEntry later trs. promiseMapOrder ts = done @ tableEntry # later \<and>
         runs_in_turn (createMapper a) done trs \<and> hd trs = tr \<and>
         createAthenaTable a (fst tableEntry) (snd tableEntry) (last trs) = None)))
   \<and> ((runs_in_turn (deleteMapper a) (promiseMapOrder ts) trs \<and> hd trs = tr \<longrightarrow>
      deleteAthenaTables a ts tr =
        Some (Resolved Undefined, last trs @ [Log ''Athena tables deleted successfully.'']))
   \<and> (deleteAthenaTables a ts tr = Some (oc, tr') \<and> fulfilled oc \<longrightarrow>
      oc = Resolved Undefined \<and>
      (\<exists>trs. runs_in_turn (deleteMapper a) (promiseMapOrder ts) trs \<and> hd trs = tr \<and>
         tr' = last trs @ [Log ''Athena tables deleted successfully.'']))
   \<and> (promiseMapOrder ts = done @ (n, t) # later \<and> runs_in_turn (deleteMapper a) done trs \<and>
      hd trs = tr \<and> deleteAthenaTable a n t None (last trs) = Some (oc, tr') \<and> \<not> completed oc \<longrightarrow>
      deleteAthenaTables a ts tr = Some (rejection oc, tr'))
   \<and> (deleteAthenaTables a ts tr = Some (oc, tr') \<and> \<not> fulfilled oc \<longrightarrow>
      (\<exists>done tableEntry later trs oc1. promiseMapOrder ts = done @ tableEntry # later \<and>
         runs_in_turn (deleteMapper a) done trs \<and> hd trs = tr \<and>
         deleteAthenaTable a (fst tableEntry) (snd tableEntry) None (last trs) = Some (oc1, tr') \<and>
         \<not> completed oc1 \<and> oc = rejection oc1))
   \<and> (deleteAthenaTables a ts tr = None \<longrightarrow>
      (\<exists>done tableEntry later trs. promiseMapOrder ts = done @ tableEntry # later \<and>
         runs_in_turn (deleteMapper a) done trs \<and> hd trs = tr \<and>
         deleteAthenaTable a (fst tableEntry) (snd tableEntry) None (last trs) = None)))
   \<and> promiseMapOrder (x # rest) = x # rev rest
   \<and> (length ts \<le> 2 \<longrightarrow> promiseMapOrder ts = ts)
   \<and> (\<forall>oc. failure oc \<longrightarrow> \<not> completed oc \<and> (\<exists>e. rejection oc = Rejected e))"
proof -
  have c: "(runs_in_turn (createMapper a) (promiseMapOrder ts) trs \<and> hd trs = tr \<longrightarrow>
      createAthenaTables a ts tr =
        Some (Resolved Undefined, last trs @ [Log ''Athena tables created successfully.'']))
   \<and> (createAthenaTables a ts tr = Some (oc, tr') \<and> fulfilled oc \<longrightarrow>
      oc = Resolved Undefined \<and>
      (\<exists>trs. runs_in_turn (createMapper a) (promiseMapOrder ts) trs \<and> hd trs = tr \<and>
         tr' = last trs @ [Log ''Athena tables created successfully.'']))
   \<and> (promiseMapOrder ts = done @ (n, t) # later \<and> runs_in_turn (createMapper a) done trs \<and>
      hd trs = tr \<and> createAthenaTable a n t (last trs) = Some (oc, tr') \<and> \<not> completed oc \<longrightarrow>
      createAthenaTables a ts tr = Some (rejection oc, tr'))
   \<and> (createAthenaTables a ts tr = Some (oc, tr') \<and> \<not> fulfilled oc \<longrightarrow>
      (\<exists>done tableEntry later trs oc1. promiseMapOrder ts = done @ tableEntry # later \<and>
         runs_in_turn (createMapper a) done trs \<and> hd trs = tr \<and>
         createAthenaTable a (fst tableEntry) (snd tableEntry) (last trs) = Some (oc1, tr') \<and>
         \<not> completed oc1 \<and> oc = rejection oc1))
   \<and> (createAthenaTables a ts tr = None \<longrightarrow>
      (\<exists>done tableEntry later trs. promiseMapOrder ts = done @ tableEntry # later \<and>
         runs_in_turn (createMapper a) done trs \<and> hd trs = tr \<and>
         createAthenaTable a (fst tableEntry) (snd tableEntry) (last trs) = None))"
    using batch_cases [where batch = "createAthenaTables a" and f = "createMapper a"
        and msg = "''Athena tables created successfully.''" and ts = ts and trs = trs and tr = tr
        and oc = oc and tr' = tr' and finished = "done" and x = "(n, t)" and later = later, OF createAthenaTables_alt]
    by (simp only: createMapper_def fst_conv snd_conv)
  have d: "(runs_in_turn (deleteMapper a) (promiseMapOrder ts) trs \<and> hd trs = tr \<longrightarrow>
      deleteAthenaTables a ts tr =
        Some (Resolved Undefined, last trs @ [Log ''Athena tables deleted successfully.'']))
   \<and> (deleteAthenaTables a ts tr = Some (oc, tr') \<and> fulfilled oc \<longrightarrow>
      oc = Resolved Undefined \<and>
      (\<exists>trs. runs_in_turn (deleteMapper a) (promiseMapOrder ts) trs \<and> hd trs = tr \<and>
         tr' = last trs @ [Log ''Athena tables deleted successfully.'']))
   \<and> (promiseMapOrder ts = done @ (n, t) # later \<and> runs_in_turn (deleteMapper a) done trs \<and>
      hd trs = tr \<and> deleteAthenaTable a n t None (last trs) = Some (oc, tr') \<and> \<not> completed oc \<longrightarrow>
      deleteAthenaTables a ts tr = Some (rejection oc, tr'))
   \<and> (deleteAthenaTables a ts tr = Some (oc, tr') \<and> \<not> fulfilled oc \<longrightarrow>
      (\<exists>done tableEntry later trs oc1. promiseMapOrder ts = done @ tableEntry # later \<and>
         runs_in_turn (deleteMapper a) done trs \<and> hd trs = tr \<and>
         deleteAthenaTable a (fst tableEntry) (snd tableEntry) None (last trs) = Some (oc1, tr') \<and>
         \<not> completed oc1 \<and> oc = rejection oc1))
   \<and> (deleteAthenaTables a ts tr = None \<longrightarrow>
      (\<exists>done tableEntry later trs. promiseMapOrder ts = done @ tableEntry # later \<and>
         runs_in_turn (deleteMapper a) done trs \<and> hd trs = tr \<and>
         deleteAthenaTable a (fst tableEntry) (snd tableEntry) None (last trs) = None))"
    using batch_cases [where batch = "deleteAthenaTables a" and f = "deleteMapper a"
        and msg = "''Athena tables deleted successfully.''" and ts = ts and trs = trs and tr = tr
        and oc = oc and tr' = tr' and finished = "done" and x = "(n, t)" and later = later, OF deleteAthenaTables_alt]
    by (simp only: deleteMapper_def fst_conv snd_conv)
  have o1: "promiseMapOrder (x # rest) = x # rev rest" by (rule promiseMapOrder_Cons)
  have o2: "length ts \<le> 2 \<longrightarrow> promiseMapOrder ts = ts" by (simp add: promiseMapOrder_short)
  have o3: "\<forall>oc. failure oc \<longrightarrow> \<not> completed oc \<and> (\<exists>e. rejection oc = Rejected e)"
  proof (intro allI impI)
    fix oc assume "failure oc"
    then show "\<not> completed oc \<and> (\<exists>e. rejection oc = Rejected e)" by (cases oc) simp_all
  qed
  show ?thesis by (rule conjI [OF c conjI [OF d conjI [OF o1 conjI [OF o2 o3]]]])
qed

lemmas run_simps =
  deleteAthenaTable_def submitCreate_def resolveAndCreate_def readDDL_def substituteDDL_def
  createAthenaTable_def validateAthenaTable_def createMapper_def deleteMapper_def
  Let_def mockService_def waitForAthenaQuery_def isQueryComplete_stop isQueryComplete_recheck
  keeps_polling_def settled_def status_checks_def ifExistsArg_def dropParams_def dropQuery_def
  createParams_def template_def truthy_def js_replace_def token_def

lemma denying_delete_t1:
  "name \<noteq> ''t1'' \<Longrightarrow>
   deleteAthenaTable (denying name) ''t1'' goodTable None [] = Some (Resolved (Str ''q1''), t1Dropped)"
  by (simp add: run_simps denying_def denyTable_def goodTable_def t1Dropped_def)

lemma denying_delete_t3_after_t1:
  "deleteAthenaTable (denying ''t3'') ''t3'' (goodTable\<lparr>TableName := Some ''t3''\<rparr>) None t1Dropped =
     Some (Rejected (ServiceError ''denied''),
       t1Dropped @ [Log ''Removing Athena table t3 (t3)...'',
                    StartQueryExecution (dropParams False (goodTable\<lparr>TableName := Some ''t3''\<rparr>))])"
  by (simp add: run_simps denying_def denyTable_def goodTable_def t1Dropped_def)

lemma denying_create_t1:
  "createAthenaTable (denying ''t3'') ''t1'' goodTable [] = Some (Resolved (Str ''q1''), t1Created)"
  by (simp add: run_simps denying_def denyTable_def goodTable_def t1Created_def)

lemma denying_create_t3_after_t1:
  "createAthenaTable (denying ''t3'') ''t3'' (goodTable\<lparr>TableName := Some ''t3''\<rparr>) t1Created =
     Some (Rejected (ServiceError ''denied''),
       t1Created @ [Log ''Removing Athena table t3 (t3)...'',
                    StartQueryExecution (dropParams True (goodTable\<lparr>TableName := Some ''t3''\<rparr>))])"
  by (simp add: run_simps denying_def denyTable_def goodTable_def t1Created_def)

text \<open>
  Three tables of which the second cannot be dropped: the third table is dropped
  before the batch fails on the second.
\<close>

theorem batch_mapping_order_counterexample:
  "map fst threeTables = [''t1'', ''t2'', ''t3'']
   \<and> deleteAthenaTables (denying ''t2'') threeTables [] =
     Some (Rejected (ServiceError ''denied''),
       [Log ''Removing Athena table t1 (t1)...'',
        StartQueryExecution (dropParams False goodTable),
        GetQueryExecution ''q1'',
        Log ''Removing Athena table t3 (t3)...'',
        StartQueryExecution (dropParams False (goodTable\<lparr>TableName := Some ''t3''\<rparr>)),
        GetQueryExecution ''q1'',
        Log ''Removing Athena table t2 (t2)...'',
        StartQueryExecution (dropParams False (goodTable\<lparr>TableName := Some ''t2''\<rparr>))])"
  by (simp add: deleteAthenaTables_alt threeTables_def promiseMapOrder_def run_simps
      denying_def denyTable_def goodTable_def)

lemma threeTables_named:
  "threeTables = [(''t1'', tableNamed ''t1''), (''t2'', tableNamed ''t2''), (''t3'', tableNamed ''t3'')]"
  by (simp add: threeTables_def tableNamed_def goodTable_def)

lemma refusing_poll:
  "isQueryComplete (refusing name) qid tr = Some (Resolved (Str qid), tr @ [GetQueryExecution qid])"
  by (simp add: isQueryComplete_stop keeps_polling_def settled_def refusing_def)

lemma refusing_start_drop:
  "startQueryExecution (refusing name) tr (dropParams b (tableNamed n)) =
     (if name = n then Inl (ServiceError ''denied'') else Inr ''q1'')"
  by (cases b) (auto simp: refusing_def denyTable_def dropParams_def dropQuery_def template_def
      tableNamed_def)

lemma tableNamed_name: "template (TableName (tableNamed n)) = n"
  by (simp add: tableNamed_def template_def)

lemma refusing_delete:
  "name \<noteq> n \<Longrightarrow>
   deleteAthenaTable (refusing name) n (tableNamed n) arg tr =
     Some (Resolved (Str ''q1''), tr @ dropped (ifExistsArg arg) n)"
  by (simp add: deleteAthenaTable_def Let_def waitForAthenaQuery_def refusing_poll dropped_def
      refusing_start_drop tableNamed_name)

lemma refusing_delete_refused:
  "deleteAthenaTable (refusing n) n (tableNamed n) arg tr =
     Some (Rejected (ServiceError ''denied''), tr @ refused (ifExistsArg arg) n)"
  by (simp add: deleteAthenaTable_def Let_def refused_def refusing_start_drop tableNamed_name)

lemma tableNamed_valid:
  "n \<noteq> [] \<Longrightarrow> validateAthenaTable n (tableNamed n) tr = (Resolved Undefined, tr)"
  by (simp add: validateAthenaTable_def tableNamed_def goodTable_def truthy_def)

lemma tableNamed_ddl:
  "substituteDDL (tableNamed n) (DDL (tableNamed n)) =
     Inr (Some ''CREATE EXTERNAL TABLE t1 (name string) LOCATION s3://bucket/path'')"
  by (simp add: substituteDDL_def tableNamed_def goodTable_def js_replace_def token_def)

lemma refusing_resolveAndCreate:
  "resolveAndCreate (refusing name) n (tableNamed n) tr =
     Some (Resolved (Str ''q1''),
       tr @ [Log (''Creating Athena table '' @ n @ ''...''),
             StartQueryExecution (createParams (tableNamed n)
               (Some ''CREATE EXTERNAL TABLE t1 (name string) LOCATION s3://bucket/path'')),
             GetQueryExecution ''q1''])"
proof -
  have rd: "readDDL (refusing name) (tableNamed n) tr = (Inr (DDL (tableNamed n)), tr)"
    by (simp add: readDDL_def tableNamed_def goodTable_def)
  have st: "startQueryExecution (refusing name) tr1
      (createParams (tableNamed n)
        (Some ''CREATE EXTERNAL TABLE t1 (name string) LOCATION s3://bucket/path'')) = Inr ''q1''" for tr1
    by (simp add: refusing_def denyTable_def createParams_def)
  show ?thesis
    by (simp add: resolveAndCreate_def rd tableNamed_ddl submitCreate_def Let_def st
        waitForAthenaQuery_def refusing_poll)
qed

lemma refusing_create:
  "name \<noteq> n \<Longrightarrow> n \<noteq> [] \<Longrightarrow>
   createAthenaTable (refusing name) n (tableNamed n) tr =
     Some (Resolved (Str ''q1''), tr @ created n)"
  by (simp add: createAthenaTable_valid [OF tableNamed_valid] refusing_delete
      refusing_resolveAndCreate ifExistsArg_def created_def)

lemma refusing_create_refused:
  "n \<noteq> [] \<Longrightarrow>
   createAthenaTable (refusing n) n (tableNamed n) tr =
     Some (Rejected (ServiceError ''denied''), tr @ refused True n)"
  by (simp add: createAthenaTable_valid [OF tableNamed_valid] refusing_delete_refused
      ifExistsArg_def)

lemma alwaysRunning_delete: "deleteAthenaTable alwaysRunning n t arg tr = None"
  by (simp add: deleteAthenaTable_def Let_def waitForAthenaQuery_def
      alwaysRunning_never_returns alwaysRunning_submit)

lemma alwaysRunning_create_batch: "createAthenaTables alwaysRunning threeTables [] = None"
  by (simp add: createAthenaTables_alt threeTables_def promiseMapOrder_def createMapper_def
      alwaysRunning_create)

lemma alwaysRunning_delete_batch: "deleteAthenaTables alwaysRunning threeTables [] = None"
  by (simp add: deleteAthenaTables_alt threeTables_def promiseMapOrder_def deleteMapper_def
      alwaysRunning_delete)

lemma created_in_turn:
  "runs_in_turn (createMapper (refusing ''none'')) (promiseMapOrder threeTables) createdTraces \<and>
   hd createdTraces = []"
  by (simp add: threeTables_named promiseMapOrder_def createMapper_def refusing_create
      createdTraces_def)

lemma dropped_in_turn:
  "runs_in_turn (deleteMapper (refusing ''none'')) (promiseMapOrder threeTables) droppedTraces \<and>
   hd droppedTraces = []"
  by (simp add: threeTables_named promiseMapOrder_def deleteMapper_def
      refusing_delete [where arg = None, unfolded ifExistsArg_def, simplified] droppedTraces_def)

theorem batch_aborts_at_first_failure_witness:
  "createAthenaTables (refusing ''none'') threeTables [] =
     Some (Resolved Undefined,
           (created ''t1'' @ created ''t3'' @ created ''t2'') @
           [Log ''Athena tables created successfully.''])
   \<and> (\<exists>trs. runs_in_turn (createMapper (refusing ''none'')) (promiseMapOrder threeTables) trs \<and>
         hd trs = [] \<and>
         (created ''t1'' @ created ''t3'' @ created ''t2'') @
           [Log ''Athena tables created successfully.''] =
         last trs @ [Log ''Athena tables created successfully.''])
   \<and> createAthenaTables (refusing ''t2'') threeTables [] =
     Some (Rejected (ServiceError ''denied''),
           (created ''t1'' @ created ''t3'') @ refused True ''t2'')
   \<and> createAthenaTables (refusing ''t3'') threeTables [] =
     Some (Rejected (ServiceError ''denied''), created ''t1'' @ refused True ''t3'')
   \<and> (\<exists>done tableEntry later trs oc1. promiseMapOrder threeTables = done @ tableEntry # later \<and>
         runs_in_turn (createMapper (refusing ''t3'')) done trs \<and> hd trs = [] \<and>
         createAthenaTable (refusing ''t3'') (fst tableEntry) (snd tableEntry) (last trs) =
           Some (oc1, created ''t1'' @ refused True ''t3'') \<and>
         \<not> completed oc1 \<and> Rejected (ServiceError ''denied'') = rejection oc1)
   \<and> (\<exists>done tableEntry later trs. promiseMapOrder threeTables = done @ tableEntry # later \<and>
         runs_in_turn (createMapper alwaysRunning) done trs \<and> hd trs = [] \<and>
         createAthenaTable alwaysRunning (fst tableEntry) (snd tableEntry) (last trs) = None)
   \<and> deleteAthenaTables (refusing ''none'') threeTables [] =
     Some (Resolved Undefined,
           (dropped False ''t1'' @ dropped False ''t3'' @ dropped False ''t2'') @
           [Log ''Athena tables deleted successfully.''])
   \<and> (\<exists>trs. runs_in_turn (deleteMapper (refusing ''none'')) (promiseMapOrder threeTables) trs \<and>
         hd trs = [] \<and>
         (dropped False ''t1'' @ dropped False ''t3'' @ dropped False ''t2'') @
           [Log ''Athena tables deleted successfully.''] =
         last trs @ [Log ''Athena tables deleted successfully.''])
   \<and> deleteAthenaTables (refusing ''t2'') threeTables [] =
     Some (Rejected (ServiceError ''denied''),
           (dropped False ''t1'' @ dropped False ''t3'') @ refused False ''t2'')
   \<and> deleteAthenaTables (refusing ''t3'') threeTables [] =
     Some (Rejected (ServiceError ''denied''), dropped False ''t1'' @ refused False ''t3'')
   \<and> (\<exists>done tableEntry later trs oc1. promiseMapOrder threeTables = done @ tableEntry # later \<and>
         runs_in_turn (deleteMapper (refusing ''t3'')) done trs \<and> hd trs = [] \<and>
         deleteAthenaTable (refusing ''t3'') (fst tableEntry) (snd tableEntry) None (last trs) =
           Some (oc1, dropped False ''t1'' @ refused False ''t3'') \<and>
         \<not> completed oc1 \<and> Rejected (ServiceError ''denied'') = rejection oc1)
   \<and> (\<exists>done tableEntry later trs. promiseMapOrder threeTables = done @ tableEntry # later \<and>
         runs_in_turn (deleteMapper alwaysRunning) done trs \<and> hd trs = [] \<and>
         deleteAthenaTable alwaysRunning (fst tableEntry) (snd tableEntry) None (last trs) = None)
   \<and> promiseMapOrder threeTables =
     [(''t1'', tableNamed ''t1''), (''t3'', tableNamed ''t3''), (''t2'', tableNamed ''t2'')]
   \<and> promiseMapOrder (take 2 threeTables) = take 2 threeTables
   \<and> \<not> completed (Thrown (ServerlessError (msg_one_of ''t2'')))
   \<and> (\<exists>e. rejection (Thrown (ServerlessError (msg_one_of ''t2''))) = Rejected e)"
proof -
  note T = batch_aborts_at_first_failure
  note C = T [THEN conjunct1]
  note D = T [THEN conjunct2, THEN conjunct1]
  let ?den = "Rejected (ServiceError ''denied'')"
  let ?t1 = "(''t1'', tableNamed ''t1'')"
  let ?t2 = "(''t2'', tableNamed ''t2'')"
  let ?t3 = "(''t3'', tableNamed ''t3'')"
  have order: "promiseMapOrder threeTables = [?t1, ?t3, ?t2]"
    by (simp add: threeTables_named promiseMapOrder_def)
  have nc: "\<not> completed ?den" by simp

  have c1: "createAthenaTables (refusing ''none'') threeTables [] =
     Some (Resolved Undefined,
           (created ''t1'' @ created ''t3'' @ created ''t2'') @
           [Log ''Athena tables created successfully.''])"
    using C [THEN conjunct1, THEN mp, OF created_in_turn] by (simp add: createdTraces_def)
  have c2: "\<exists>trs. runs_in_turn (createMapper (refusing ''none'')) (promiseMapOrder threeTables) trs \<and>
         hd trs = [] \<and>
         (created ''t1'' @ created ''t3'' @ created ''t2'') @
           [Log ''Athena tables created successfully.''] =
         last trs @ [Log ''Athena tables created successfully.'']"
    using C [THEN conjunct2, THEN conjunct1, THEN mp, OF conjI [OF c1]] by simp
  have h3: "promiseMapOrder threeTables = [?t1, ?t3] @ (''t2'', tableNamed ''t2'') # [] \<and>
      runs_in_turn (createMapper (refusing ''t2'')) [?t1, ?t3]
        [[], created ''t1'', created ''t1'' @ created ''t3''] \<and>
      hd [[], created ''t1'', created ''t1'' @ created ''t3''] = [] \<and>
      createAthenaTable (refusing ''t2'') ''t2'' (tableNamed ''t2'')
        (last [[], created ''t1'', created ''t1'' @ created ''t3'']) =
        Some (?den, (created ''t1'' @ created ''t3'') @ refused True ''t2'') \<and>
      \<not> completed ?den"
    by (simp add: order createMapper_def refusing_create refusing_create_refused)
  have c3: "createAthenaTables (refusing ''t2'') threeTables [] =
     Some (?den, (created ''t1'' @ created ''t3'') @ refused True ''t2'')"
    using C [THEN conjunct2, THEN conjunct2, THEN conjunct1, THEN mp, OF h3] by simp
  have h3b: "promiseMapOrder threeTables = [?t1] @ (''t3'', tableNamed ''t3'') # [?t2] \<and>
      runs_in_turn (createMapper (refusing ''t3'')) [?t1] [[], created ''t1''] \<and>
      hd [[], created ''t1''] = [] \<and>
      createAthenaTable (refusing ''t3'') ''t3'' (tableNamed ''t3'') (last [[], created ''t1'']) =
        Some (?den, created ''t1'' @ refused True ''t3'') \<and>
      \<not> completed ?den"
    by (simp add: order createMapper_def refusing_create refusing_create_refused)
  have c3b: "createAthenaTables (refusing ''t3'') threeTables [] =
     Some (?den, created ''t1'' @ refused True ''t3'')"
    using C [THEN conjunct2, THEN conjunct2, THEN conjunct1, THEN mp, OF h3b] by simp
  have nf: "\<not> fulfilled ?den" by simp
  have c4: "\<exists>done tableEntry later trs oc1. promiseMapOrder threeTables = done @ tableEntry # later \<and>
         runs_in_turn (createMapper (refusing ''t3'')) done trs \<and> hd trs = [] \<and>
         createAthenaTable (refusing ''t3'') (fst tableEntry) (snd tableEntry) (last trs) =
           Some (oc1, created ''t1'' @ refused True ''t3'') \<and>
         \<not> completed oc1 \<and> Rejected (ServiceError ''denied'') = rejection oc1"
    by (rule C [THEN conjunct2, THEN conjunct2, THEN conjunct2, THEN conjunct1, THEN mp,
                OF conjI [OF c3b nf]])
  have c5: "\<exists>done tableEntry later trs. promiseMapOrder threeTables = done @ tableEntry # later \<and>
         runs_in_turn (createMapper alwaysRunning) done trs \<and> hd trs = [] \<and>
         createAthenaTable alwaysRunning (fst tableEntry) (snd tableEntry) (last trs) = None"
    by (rule C [THEN conjunct2, THEN conjunct2, THEN conjunct2, THEN conjunct2, THEN mp,
                OF alwaysRunning_create_batch])

  have d1: "deleteAthenaTables (refusing ''none'') threeTables [] =
     Some (Resolved Undefined,
           (dropped False ''t1'' @ dropped False ''t3'' @ dropped False ''t2'') @
           [Log ''Athena tables deleted successfully.''])"
    using D [THEN conjunct1, THEN mp, OF dropped_in_turn] by (simp add: droppedTraces_def)
  have d2: "\<exists>trs. runs_in_turn (deleteMapper (refusing ''none'')) (promiseMapOrder threeTables) trs \<and>
         hd trs = [] \<and>
         (dropped False ''t1'' @ dropped False ''t3'' @ dropped False ''t2'') @
           [Log ''Athena tables deleted successfully.''] =
         last trs @ [Log ''Athena tables deleted successfully.'']"
    using D [THEN conjunct2, THEN conjunct1, THEN mp, OF conjI [OF d1]] by simp
  have del: "name \<noteq> n \<Longrightarrow> deleteAthenaTable (refusing name) n (tableNamed n) None tr =
      Some (Resolved (Str ''q1''), tr @ dropped False n)" for name n tr
    using refusing_delete [of name n None tr] by (simp add: ifExistsArg_def)
  have delr: "deleteAthenaTable (refusing n) n (tableNamed n) None tr =
      Some (?den, tr @ refused False n)" for n tr
    using refusing_delete_refused [of n None tr] by (simp add: ifExistsArg_def)
  have g3: "promiseMapOrder threeTables = [?t1, ?t3] @ (''t2'', tableNamed ''t2'') # [] \<and>
      runs_in_turn (deleteMapper (refusing ''t2'')) [?t1, ?t3]
        [[], dropped False ''t1'', dropped False ''t1'' @ dropped False ''t3''] \<and>
      hd [[], dropped False ''t1'', dropped False ''t1'' @ dropped False ''t3''] = [] \<and>
      deleteAthenaTable (refusing ''t2'') ''t2'' (tableNamed ''t2'') None
        (last [[], dropped False ''t1'', dropped False ''t1'' @ dropped False ''t3'']) =
        Some (?den, (dropped False ''t1'' @ dropped False ''t3'') @ refused False ''t2'') \<and>
      \<not> completed ?den"
    by (simp add: order deleteMapper_def del delr)
  have d3: "deleteAthenaTables (refusing ''t2'') threeTables [] =
     Some (?den, (dropped False ''t1'' @ dropped False ''t3'') @ refused False ''t2'')"
    using D [THEN conjunct2, THEN conjunct2, THEN conjunct1, THEN mp, OF g3] by simp
  have g3b: "promiseMapOrder threeTables = [?t1] @ (''t3'', tableNamed ''t3'') # [?t2] \<and>
      runs_in_turn (deleteMapper (refusing ''t3'')) [?t1] [[], dropped False ''t1''] \<and>
      hd [[], dropped False ''t1''] = [] \<and>
      deleteAthenaTable (refusing ''t3'') ''t3'' (tableNamed ''t3'') None
        (last [[], dropped False ''t1'']) =
        Some (?den, dropped False ''t1'' @ refused False ''t3'') \<and>
      \<not> completed ?den"
    by (simp add: order deleteMapper_def del delr)
  have d3b: "deleteAthenaTables (refusing ''t3'') threeTables [] =
     Some (?den, dropped False ''t1'' @ refused False ''t3'')"
    using D [THEN conjunct2, THEN conjunct2, THEN conjunct1, THEN mp, OF g3b] by simp
  have d4: "\<exists>done tableEntry later trs oc1. promiseMapOrder threeTables = done @ tableEntry # later \<and>
         runs_in_turn (deleteMapper (refusing ''t3'')) done trs \<and> hd trs = [] \<and>
         deleteAthenaTable (refusing ''t3'') (fst tableEntry) (snd tableEntry) None (last trs) =
           Some (oc1, dropped False ''t1'' @ refused False ''t3'') \<and>
         \<not> completed oc1 \<and> Rejected (ServiceError ''denied'') = rejection oc1"
    by (rule D [THEN conjunct2, THEN conjunct2, THEN conjunct2, THEN conjunct1, THEN mp,
                OF conjI [OF d3b nf]])
  have d5: "\<exists>done tableEntry later trs. promiseMapOrder threeTables = done @ tableEntry # later \<and>
         runs_in_turn (deleteMapper alwaysRunning) done trs \<and> hd trs = [] \<and>
         deleteAthenaTable alwaysRunning (fst tableEntry) (snd tableEntry) None (last trs) = None"
    by (rule D [THEN conjunct2, THEN conjunct2, THEN conjunct2, THEN conjunct2, THEN mp,
                OF alwaysRunning_delete_batch])

  have o1: "promiseMapOrder threeTables = [?t1, ?t3, ?t2]"
    using T [where x = "(''t1'', tableNamed ''t1'')" and rest = "[?t2, ?t3]",
             THEN conjunct2, THEN conjunct2, THEN conjunct1]
    by (simp add: threeTables_named)
  have o2: "promiseMapOrder (take 2 threeTables) = take 2 threeTables"
    by (rule T [THEN conjunct2, THEN conjunct2, THEN conjunct2, THEN conjunct1, THEN mp])
       (simp add: threeTables_def)
  have fl: "failure (Thrown (ServerlessError (msg_one_of ''t2'')))" by simp
  have o3: "\<not> completed (Thrown (ServerlessError (msg_one_of ''t2''))) \<and>
      (\<exists>e. rejection (Thrown (ServerlessError (msg_one_of ''t2''))) = Rejected e)"
    by (rule T [THEN conjunct2, THEN conjunct2, THEN conjunct2, THEN conjunct2, THEN spec,
                THEN mp, OF fl])
  from c1 c2 c3 c3b c4 c5 d1 d2 d3 d3b d4 d5 o1 o2 o3 show ?thesis
    by (intro conjI) (simp_all only: simp_thms)
qed

section \<open>The IF EXISTS flag\<close>

lemma deleteAthenaTable_submissions:
  assumes "deleteAthenaTable a n t arg tr = Some (oc, tr')"
  shows "submissions tr' = submissions tr @ [dropParams (ifExistsArg arg) t]"
proof -
  from deleteAthenaTable_run [OF assms] obtain polls where
    "tr' = tr @ [dropLog n t, StartQueryExecution (dropParams (ifExistsArg arg) t)] @ polls"
    "submissions polls = []"
    by blast
  then show ?thesis by (simp add: submissions_append dropLog_def)
qed

lemma mapSerial_delete_submissions:
  "mapSerial (deleteMapper a) xs tr = Some (oc, tr') \<Longrightarrow>
   \<exists>k\<le>length xs. submissions tr' =
     submissions tr @ map (\<lambda>tableEntry. dropParams False (snd tableEntry)) (take k xs)"
proof (induction xs arbitrary: tr)
  case Nil
  then show ?case by simp
next
  case (Cons x xs)
  from Cons.prems obtain oc1 tr1 where step: "deleteMapper a x tr = Some (oc1, tr1)"
    by (cases "deleteMapper a x tr") auto
  then have "deleteAthenaTable a (fst x) (snd x) None tr = Some (oc1, tr1)"
    by (simp add: deleteMapper_def)
  from deleteAthenaTable_submissions [OF this]
  have s1: "submissions tr1 = submissions tr @ [dropParams False (snd x)]"
    by (simp add: ifExistsArg_def)
  show ?case
  proof (cases "completed oc1")
    case True
    with Cons.prems step have "mapSerial (deleteMapper a) xs tr1 = Some (oc, tr')" by simp
    from Cons.IH [OF this] obtain k where k: "k \<le> length xs"
      "submissions tr' =
         submissions tr1 @ map (\<lambda>tableEntry. dropParams False (snd tableEntry)) (take k xs)"
      by blast
    with s1 show ?thesis by (intro exI [of _ "Suc k"]) simp
  next
    case False
    with Cons.prems step have "tr' = tr1" by simp
    with s1 show ?thesis by (intro exI [of _ "Suc 0"]) simp
  qed
qed

lemma deleteAthenaTables_submissions:
  assumes "deleteAthenaTables a ts tr = Some (oc, tr')"
  shows "\<exists>k\<le>length ts. submissions tr' =
     submissions tr @
     map (\<lambda>tableEntry. dropParams False (snd tableEntry)) (take k (promiseMapOrder ts))"
proof -
  from assms obtain oc1 tr1 where
    m: "mapSerial (deleteMapper a) (promiseMapOrder ts) tr = Some (oc1, tr1)"
    and "submissions tr' = submissions tr1"
    by (auto simp: deleteAthenaTables_alt submissions_append split: option.splits if_splits)
  with mapSerial_delete_submissions [OF m] show ?thesis
    by (simp add: promiseMapOrder_length)
qed

lemma createAthenaTable_first_submission:
  assumes "validateAthenaTable n t tr = (Resolved u, tr0)"
    and "createAthenaTable a n t tr = Some (oc, tr')"
  shows "\<exists>rest. submissions tr' = submissions tr @ dropParams True t # rest"
proof -
  from validateAthenaTable_trace [of n t tr] assms(1) have sub0: "submissions tr0 = submissions tr"
    by (auto simp: submissions_append)
  from assms(2) createAthenaTable_valid [OF assms(1), of a]
  obtain oc2 tr2 where del: "deleteAthenaTable a n t (Some True) tr0 = Some (oc2, tr2)"
    and rest: "(if fulfilled oc2 then resolveAndCreate a n t tr2 else Some (oc2, tr2)) = Some (oc, tr')"
    by (auto split: option.splits)
  from deleteAthenaTable_submissions [OF del] sub0
  have s2: "submissions tr2 = submissions tr @ [dropParams True t]"
    by (simp add: ifExistsArg_def)
  show ?thesis
  proof (cases "fulfilled oc2")
    case False
    with rest s2 show ?thesis by simp
  next
    case True
    with rest have "resolveAndCreate a n t tr2 = Some (oc, tr')" by simp
    from resolveAndCreate_run [OF this] obtain r where "tr' = tr2 @ r" by blast
    with s2 show ?thesis by (simp add: submissions_append)
  qed
qed

lemma deleteAthenaTable_unfold:
  "deleteAthenaTable a n t arg tr =
     (case startQueryExecution a (tr @ [dropLog n t]) (dropParams (ifExistsArg arg) t) of
        Inl e \<Rightarrow>
          Some (Rejected e,
                tr @ [dropLog n t, StartQueryExecution (dropParams (ifExistsArg arg) t)])
      | Inr qid \<Rightarrow>
          waitForAthenaQuery a qid
            (tr @ [dropLog n t, StartQueryExecution (dropParams (ifExistsArg arg) t)]))"
  by (simp add: deleteAthenaTable_def Let_def dropLog_def split: sum.split)

lemma waitForAthenaQuery_never_returns:
  assumes "waitForAthenaQuery a qid tr = None"
  shows "keeps_polling (getQueryExecution a (recheck_trace qid tr k) qid)"
proof -
  from assms have "isQueryComplete a qid tr = None" by (simp add: waitForAthenaQuery_def)
  with isQueryComplete_settles [of a qid tr k] show ?thesis by blast
qed

lemma deleteAthenaTable_never_returns:
  assumes "deleteAthenaTable a n t arg tr = None"
  shows "\<exists>qid. startQueryExecution a (tr @ [dropLog n t]) (dropParams (ifExistsArg arg) t) = Inr qid \<and>
     (\<forall>k. keeps_polling (getQueryExecution a
        (recheck_trace qid
           (tr @ [dropLog n t, StartQueryExecution (dropParams (ifExistsArg arg) t)]) k) qid))"
proof (cases "startQueryExecution a (tr @ [dropLog n t]) (dropParams (ifExistsArg arg) t)")
  case (Inl e)
  with assms show ?thesis by (simp add: deleteAthenaTable_unfold)
next
  case (Inr qid)
  with assms have "waitForAthenaQuery a qid
      (tr @ [dropLog n t, StartQueryExecution (dropParams (ifExistsArg arg) t)]) = None"
    by (simp add: deleteAthenaTable_unfold)
  from waitForAthenaQuery_never_returns [OF this] Inr show ?thesis by blast
qed

lemma runs_in_turn_delete_submissions:
  "runs_in_turn f xs trs \<Longrightarrow> f = deleteMapper a \<Longrightarrow>
   submissions (last trs) =
     submissions (hd trs) @ map (\<lambda>tableEntry. dropParams False (snd tableEntry)) xs"
proof (induction f xs trs rule: runs_in_turn.induct)
  case (1 f trs)
  then obtain tr where "trs = [tr]" by (cases trs) auto
  then show ?case by simp
next
  case (2 f x xs tr tr1 trs)
  from "2.prems" obtain oc where step: "deleteMapper a x tr = Some (oc, tr1)"
    and rest: "runs_in_turn f xs (tr1 # trs)"
    by (auto split: option.splits)
  from step have "deleteAthenaTable a (fst x) (snd x) None tr = Some (oc, tr1)"
    by (simp add: deleteMapper_def)
  from deleteAthenaTable_submissions [OF this]
  have "submissions tr1 = submissions tr @ [dropParams False (snd x)]"
    by (simp add: ifExistsArg_def)
  with "2.IH" [OF rest "2.prems"(2)] show ?case by simp
qed simp_all

lemma deleteAthenaTables_never_returns:
  assumes "deleteAthenaTables a ts tr = None"
  shows "\<exists>done tableEntry later trs. promiseMapOrder ts = done @ tableEntry # later \<and>
     runs_in_turn (deleteMapper a) done trs \<and> hd trs = tr \<and>
     submissions (last trs) =
       submissions tr @ map (\<lambda>tableEntry. dropParams False (snd tableEntry)) done \<and>
     deleteAthenaTable a (fst tableEntry) (snd tableEntry) None (last trs) = None"
proof -
  from assms have "mapSerial (deleteMapper a) (promiseMapOrder ts) tr = None"
    by (auto simp: deleteAthenaTables_alt split: option.splits if_splits)
  from mapSerial_diverges [OF this] obtain "done" x later trs where
    d: "promiseMapOrder ts = done @ x # later" "runs_in_turn (deleteMapper a) done trs"
       "hd trs = tr" "deleteMapper a x (last trs) = None"
    by blast
  from runs_in_turn_delete_submissions [OF d(2) refl] d(3)
  have "submissions (last trs) =
       submissions tr @ map (\<lambda>tableEntry. dropParams False (snd tableEntry)) done"
    by simp
  with d have "promiseMapOrder ts = done @ x # later \<and>
     runs_in_turn (deleteMapper a) done trs \<and> hd trs = tr \<and>
     submissions (last trs) =
       submissions tr @ map (\<lambda>tableEntry. dropParams False (snd tableEntry)) done \<and>
     deleteAthenaTable a (fst x) (snd x) None (last trs) = None"
    by (simp add: deleteMapper_def)
  then show ?thesis by blast
qed

text \<open>
  C7. deleteAthenaTable submits DROP TABLE IF EXISTS followed by the TableName when,
  and only when, the third argument is passed as true; the argument defaults to
  false, and the query is then DROP TABLE without IF EXISTS. Every run of
  deleteAthenaTable logs its line, submits that query and, when the query is
  accepted, polls it: a run that returns has submitted exactly that query, and a run
  that does not return has submitted it and observes RUNNING or QUEUED for ever. The
  remove command with a table name and the delete batch call it without the
  argument; createAthenaTable calls it with true before anything else.
\<close>

theorem deleteAthenaTable_if_exists_flag:
  "(QueryString (dropParams (ifExistsArg arg) t) =
      Some (''DROP TABLE IF EXISTS '' @ template (TableName t)) \<longleftrightarrow> arg = Some True)
   \<and> (arg \<noteq> Some True \<longrightarrow>
      QueryString (dropParams (ifExistsArg arg) t) = Some (''DROP TABLE  '' @ template (TableName t)))
   \<and> (deleteAthenaTable a n t arg tr = Some (oc, tr') \<longrightarrow>
      submissions tr' = submissions tr @ [dropParams (ifExistsArg arg) t])
   \<and> (truthy opt \<and> map_of (getAthenaTables custom) (template opt) = Some t \<longrightarrow>
      removeAthenaTablesRemove a opt custom tr =
        deleteAthenaTable a (template opt) t None
          (tr @ [Log ''Removing Athena table [object Object]...'']))
   \<and> (deleteAthenaTables a ts tr = Some (oc, tr') \<longrightarrow>
      (\<exists>k\<le>length ts. submissions tr' =
         submissions tr @
         map (\<lambda>tableEntry. dropParams False (snd tableEntry)) (take k (promiseMapOrder ts))))
   \<and> (validateAthenaTable n t tr = (Resolved u, tr0) \<and>
      createAthenaTable a n t tr = Some (oc, tr') \<longrightarrow>
      (\<exists>rest. submissions tr' = submissions tr @ dropParams True t # rest))
   \<and> deleteAthenaTable a n t arg tr =
      (case startQueryExecution a (tr @ [dropLog n t]) (dropParams (ifExistsArg arg) t) of
         Inl e \<Rightarrow>
           Some (Rejected e,
                 tr @ [dropLog n t, StartQueryExecution (dropParams (ifExistsArg arg) t)])
       | Inr qid \<Rightarrow>
           waitForAthenaQuery a qid
             (tr @ [dropLog n t, StartQueryExecution (dropParams (ifExistsArg arg) t)]))
   \<and> (deleteAthenaTable a n t arg tr = None \<longrightarrow>
      (\<exists>qid. startQueryExecution a (tr @ [dropLog n t]) (dropParams (ifExistsArg arg) t) = Inr qid \<and>
         (\<forall>k. getQueryExecution a
                (recheck_trace qid
                   (tr @ [dropLog n t, StartQueryExecution (dropParams (ifExistsArg arg) t)]) k)
                qid = Inr ''RUNNING'' \<or>
              getQueryExecution a
                (recheck_trace qid
                   (tr @ [dropLog n t, StartQueryExecution (dropParams (ifExistsArg arg) t)]) k)
                qid = Inr ''QUEUED'')))
   \<and> (deleteAthenaTables a ts tr = None \<longrightarrow>
      (\<exists>done tableEntry later trs. promiseMapOrder ts = done @ tableEntry # later \<and>
         runs_in_turn (deleteMapper a) done trs \<and> hd trs = tr \<and>
         submissions (last trs) =
           submissions tr @ map (\<lambda>tableEntry. dropParams False (snd tableEntry)) done \<and>
         deleteAthenaTable a (fst tableEntry) (snd tableEntry) None (last trs) = None))
   \<and> (validateAthenaTable n t tr = (Resolved u, tr0) \<longrightarrow>
      createAthenaTable a n t tr =
        (case deleteAthenaTable a n t (Some True) tr0 of
           None \<Rightarrow> None
         | Some (oc2, tr2) \<Rightarrow>
             if fulfilled oc2 then resolveAndCreate a n t tr2 else Some (oc2, tr2)))"
proof -
  have q1: "QueryString (dropParams (ifExistsArg arg) t) =
      Some (''DROP TABLE IF EXISTS '' @ template (TableName t)) \<longleftrightarrow> arg = Some True"
    by (cases arg) (auto simp: dropParams_def dropQuery_def ifExistsArg_def)
  have q2: "arg \<noteq> Some True \<longrightarrow>
      QueryString (dropParams (ifExistsArg arg) t) = Some (''DROP TABLE  '' @ template (TableName t))"
    by (cases arg) (auto simp: dropParams_def dropQuery_def ifExistsArg_def)
  have q3: "deleteAthenaTable a n t arg tr = Some (oc, tr') \<longrightarrow>
      submissions tr' = submissions tr @ [dropParams (ifExistsArg arg) t]"
    using deleteAthenaTable_submissions by blast
  have q4: "truthy opt \<and> map_of (getAthenaTables custom) (template opt) = Some t \<longrightarrow>
      removeAthenaTablesRemove a opt custom tr =
        deleteAthenaTable a (template opt) t None
          (tr @ [Log ''Removing Athena table [object Object]...''])"
    by (simp add: removeAthenaTablesRemove_def template_table_def)
  have q5: "deleteAthenaTables a ts tr = Some (oc, tr') \<longrightarrow>
      (\<exists>k\<le>length ts. submissions tr' =
         submissions tr @
         map (\<lambda>tableEntry. dropParams False (snd tableEntry)) (take k (promiseMapOrder ts)))"
    using deleteAthenaTables_submissions by blast
  have q6: "validateAthenaTable n t tr = (Resolved u, tr0) \<and>
      createAthenaTable a n t tr = Some (oc, tr') \<longrightarrow>
      (\<exists>rest. submissions tr' = submissions tr @ dropParams True t # rest)"
    using createAthenaTable_first_submission by blast
  note q7 = deleteAthenaTable_unfold [of a n t arg tr]
  have q8: "deleteAthenaTable a n t arg tr = None \<longrightarrow>
      (\<exists>qid. startQueryExecution a (tr @ [dropLog n t]) (dropParams (ifExistsArg arg) t) = Inr qid \<and>
         (\<forall>k. getQueryExecution a
                (recheck_trace qid
                   (tr @ [dropLog n t, StartQueryExecution (dropParams (ifExistsArg arg) t)]) k)
                qid = Inr ''RUNNING'' \<or>
              getQueryExecution a
                (recheck_trace qid
                   (tr @ [dropLog n t, StartQueryExecution (dropParams (ifExistsArg arg) t)]) k)
                qid = Inr ''QUEUED''))"
    using deleteAthenaTable_never_returns [of a n t arg tr]
    by (simp only: keeps_polling_def) blast
  have q9: "deleteAthenaTables a ts tr = None \<longrightarrow>
      (\<exists>done tableEntry later trs. promiseMapOrder ts = done @ tableEntry # later \<and>
         runs_in_turn (deleteMapper a) done trs \<and> hd trs = tr \<and>
         submissions (last trs) =
           submissions tr @ map (\<lambda>tableEntry. dropParams False (snd tableEntry)) done \<and>
         deleteAthenaTable a (fst tableEntry) (snd tableEntry) None (last trs) = None)"
    using deleteAthenaTables_never_returns by blast
  have q10: "validateAthenaTable n t tr = (Resolved u, tr0) \<longrightarrow>
      createAthenaTable a n t tr =
        (case deleteAthenaTable a n t (Some True) tr0 of
           None \<Rightarrow> None
         | Some (oc2, tr2) \<Rightarrow>
             if fulfilled oc2 then resolveAndCreate a n t tr2 else Some (oc2, tr2))"
    using createAthenaTable_valid by blast
  show ?thesis
    by (rule conjI [OF q1 conjI [OF q2 conjI [OF q3 conjI [OF q4 conjI [OF q5 conjI [OF q6
          conjI [OF q7 conjI [OF q8 conjI [OF q9 q10]]]]]]]]])
qed

lemma refusing_delete_batch:
  "deleteAthenaTables (refusing ''t3'') threeTables [] =
     Some (Rejected (ServiceError ''denied''), dropped False ''t1'' @ refused False ''t3'')"
  using refusing_delete [of "''t3''" "''t1''" None "[]"]
        refusing_delete_refused [of "''t3''" None "dropped False ''t1''"]
  by (simp add: deleteAthenaTables_alt threeTables_named promiseMapOrder_def deleteMapper_def
      ifExistsArg_def)

theorem deleteAthenaTable_if_exists_flag_witness:
  "(QueryString (dropParams (ifExistsArg (Some True)) goodTable) =
      Some (''DROP TABLE IF EXISTS '' @ template (TableName goodTable)) \<longleftrightarrow> Some True = Some True)
   \<and> QueryString (dropParams (ifExistsArg None) goodTable) =
      Some (''DROP TABLE  '' @ template (TableName goodTable))
   \<and> deleteAthenaTable (refusing ''none'') ''t1'' (tableNamed ''t1'') None [] =
      Some (Resolved (Str ''q1''), dropped False ''t1'')
   \<and> submissions (dropped False ''t1'') =
      submissions [] @ [dropParams (ifExistsArg None) (tableNamed ''t1'')]
   \<and> removeAthenaTablesRemove (refusing ''none'') (Some ''t1'') (Some threeTables) [] =
        deleteAthenaTable (refusing ''none'') (template (Some ''t1'')) goodTable None
          ([] @ [Log ''Removing Athena table [object Object]...''])
   \<and> deleteAthenaTables (refusing ''t3'') threeTables [] =
      Some (Rejected (ServiceError ''denied''), dropped False ''t1'' @ refused False ''t3'')
   \<and> (\<exists>k\<le>length threeTables.
        submissions (dropped False ''t1'' @ refused False ''t3'') =
        submissions [] @
        map (\<lambda>tableEntry. dropParams False (snd tableEntry)) (take k (promiseMapOrder threeTables)))
   \<and> createAthenaTable (refusing ''none'') ''t1'' (tableNamed ''t1'') [] =
      Some (Resolved (Str ''q1''), created ''t1'')
   \<and> (\<exists>rest. submissions (created ''t1'') =
        submissions [] @ dropParams True (tableNamed ''t1'') # rest)
   \<and> deleteAthenaTable alwaysRunning ''t1'' goodTable None [] = None
   \<and> (\<exists>qid. startQueryExecution alwaysRunning ([] @ [dropLog ''t1'' goodTable])
              (dropParams (ifExistsArg None) goodTable) = Inr qid \<and>
         (\<forall>k. getQueryExecution alwaysRunning
                (recheck_trace qid
                   ([] @ [dropLog ''t1'' goodTable,
                          StartQueryExecution (dropParams (ifExistsArg None) goodTable)]) k)
                qid = Inr ''RUNNING'' \<or>
              getQueryExecution alwaysRunning
                (recheck_trace qid
                   ([] @ [dropLog ''t1'' goodTable,
                          StartQueryExecution (dropParams (ifExistsArg None) goodTable)]) k)
                qid = Inr ''QUEUED''))
   \<and> deleteAthenaTables alwaysRunning threeTables [] = None
   \<and> (\<exists>done tableEntry later trs. promiseMapOrder threeTables = done @ tableEntry # later \<and>
         runs_in_turn (deleteMapper alwaysRunning) done trs \<and> hd trs = [] \<and>
         submissions (last trs) =
           submissions [] @ map (\<lambda>tableEntry. dropParams False (snd tableEntry)) done \<and>
         deleteAthenaTable alwaysRunning (fst tableEntry) (snd tableEntry) None (last trs) = None)
   \<and> createAthenaTable (refusing ''none'') ''t1'' (tableNamed ''t1'') [] =
        (case deleteAthenaTable (refusing ''none'') ''t1'' (tableNamed ''t1'') (Some True) [] of
           None \<Rightarrow> None
         | Some (oc2, tr2) \<Rightarrow>
             if fulfilled oc2 then resolveAndCreate (refusing ''none'') ''t1'' (tableNamed ''t1'') tr2
             else Some (oc2, tr2))"
proof -
  note T = deleteAthenaTable_if_exists_flag
  have neq: "None \<noteq> Some True" by simp
  have found: "truthy (Some ''t1'') \<and>
      map_of (getAthenaTables (Some threeTables)) (template (Some ''t1'')) = Some goodTable"
    by (simp add: truthy_def getAthenaTables_def threeTables_def template_def)
  have del: "deleteAthenaTable (refusing ''none'') ''t1'' (tableNamed ''t1'') None [] =
      Some (Resolved (Str ''q1''), dropped False ''t1'')"
    using refusing_delete [of "''none''" "''t1''" None "[]"] by (simp add: ifExistsArg_def)
  have valid: "validateAthenaTable ''t1'' (tableNamed ''t1'') [] = (Resolved Undefined, [])"
    by (simp add: tableNamed_valid)
  have cre: "createAthenaTable (refusing ''none'') ''t1'' (tableNamed ''t1'') [] =
      Some (Resolved (Str ''q1''), created ''t1'')"
    using refusing_create [of "''none''" "''t1''" "[]"] by simp
  have w1: "QueryString (dropParams (ifExistsArg (Some True)) goodTable) =
      Some (''DROP TABLE IF EXISTS '' @ template (TableName goodTable)) \<longleftrightarrow> Some True = Some True"
    by (rule T [THEN conjunct1])
  have w2: "QueryString (dropParams (ifExistsArg None) goodTable) =
      Some (''DROP TABLE  '' @ template (TableName goodTable))"
    by (rule T [THEN conjunct2, THEN conjunct1, THEN mp, OF neq])
  have w3: "submissions (dropped False ''t1'') =
      submissions [] @ [dropParams (ifExistsArg None) (tableNamed ''t1'')]"
    by (rule T [THEN conjunct2, THEN conjunct2, THEN conjunct1, THEN mp, OF del])
  have w4: "removeAthenaTablesRemove (refusing ''none'') (Some ''t1'') (Some threeTables) [] =
        deleteAthenaTable (refusing ''none'') (template (Some ''t1'')) goodTable None
          ([] @ [Log ''Removing Athena table [object Object]...''])"
    by (rule T [THEN conjunct2, THEN conjunct2, THEN conjunct2, THEN conjunct1, THEN mp, OF found])
  have w5: "\<exists>k\<le>length threeTables.
        submissions (dropped False ''t1'' @ refused False ''t3'') =
        submissions [] @
        map (\<lambda>tableEntry. dropParams False (snd tableEntry)) (take k (promiseMapOrder threeTables))"
    by (rule T [THEN conjunct2, THEN conjunct2, THEN conjunct2, THEN conjunct2, THEN conjunct1,
                THEN mp, OF refusing_delete_batch])
  have w6: "\<exists>rest. submissions (created ''t1'') =
        submissions [] @ dropParams True (tableNamed ''t1'') # rest"
    by (rule T [THEN conjunct2, THEN conjunct2, THEN conjunct2, THEN conjunct2, THEN conjunct2,
                THEN conjunct1, THEN mp, OF conjI [OF valid cre]])
  have run: "deleteAthenaTable alwaysRunning ''t1'' goodTable None [] = None"
    by (rule alwaysRunning_delete)
  have w8: "\<exists>qid. startQueryExecution alwaysRunning ([] @ [dropLog ''t1'' goodTable])
              (dropParams (ifExistsArg None) goodTable) = Inr qid \<and>
         (\<forall>k. getQueryExecution alwaysRunning
                (recheck_trace qid
                   ([] @ [dropLog ''t1'' goodTable,
                          StartQueryExecution (dropParams (ifExistsArg None) goodTable)]) k)
                qid = Inr ''RUNNING'' \<or>
              getQueryExecution alwaysRunning
                (recheck_trace qid
                   ([] @ [dropLog ''t1'' goodTable,
                          StartQueryExecution (dropParams (ifExistsArg None) goodTable)]) k)
                qid = Inr ''QUEUED'')"
    by (rule T [THEN conjunct2, THEN conjunct2, THEN conjunct2, THEN conjunct2, THEN conjunct2,
                THEN conjunct2, THEN conjunct2, THEN conjunct1, THEN mp, OF run])
  have w9: "\<exists>done tableEntry later trs. promiseMapOrder threeTables = done @ tableEntry # later \<and>
         runs_in_turn (deleteMapper alwaysRunning) done trs \<and> hd trs = [] \<and>
         submissions (last trs) =
           submissions [] @ map (\<lambda>tableEntry. dropParams False (snd tableEntry)) done \<and>
         deleteAthenaTable alwaysRunning (fst tableEntry) (snd tableEntry) None (last trs) = None"
    by (rule T [THEN conjunct2, THEN conjunct2, THEN conjunct2, THEN conjunct2, THEN conjunct2,
                THEN conjunct2, THEN conjunct2, THEN conjunct2, THEN conjunct1, THEN mp,
                OF alwaysRunning_delete_batch])
  have w10: "createAthenaTable (refusing ''none'') ''t1'' (tableNamed ''t1'') [] =
        (case deleteAthenaTable (refusing ''none'') ''t1'' (tableNamed ''t1'') (Some True) [] of
           None \<Rightarrow> None
         | Some (oc2, tr2) \<Rightarrow>
             if fulfilled oc2 then resolveAndCreate (refusing ''none'') ''t1'' (tableNamed ''t1'') tr2
             else Some (oc2, tr2))"
    by (rule T [THEN conjunct2, THEN conjunct2, THEN conjunct2, THEN conjunct2, THEN conjunct2,
                THEN conjunct2, THEN conjunct2, THEN conjunct2, THEN conjunct2, THEN mp, OF valid])
  show ?thesis
    by (rule conjI [OF w1 conjI [OF w2 conjI [OF del conjI [OF w3 conjI [OF w4
          conjI [OF refusing_delete_batch conjI [OF w5 conjI [OF cre conjI [OF w6
          conjI [OF run conjI [OF w8 conjI [OF alwaysRunning_delete_batch
          conjI [OF w9 w10]]]]]]]]]]]]])
qed

section \<open>The create path validates\<close>

lemma validateAthenaTable_failure:
  "failure (fst (validateAthenaTable n t tr)) \<Longrightarrow>
   \<exists>m. validateAthenaTable n t tr = (Thrown (ServerlessError m), tr)"
  by (auto simp: validateAthenaTable_def split: if_splits)

lemma validateAthenaTable_failure_any:
  "failure (fst (validateAthenaTable n t tr)) \<Longrightarrow> failure (fst (validateAthenaTable n' t tr'))"
  by (auto simp: validateAthenaTable_def split: if_splits)

lemma createAthenaTable_invalid:
  assumes "failure (fst (validateAthenaTable n t tr))"
  shows "\<exists>m. validateAthenaTable n t tr = (Thrown (ServerlessError m), tr) \<and>
             createAthenaTable a n t tr = Some (Thrown (ServerlessError m), tr)"
proof -
  from validateAthenaTable_failure [OF assms] obtain m where
    "validateAthenaTable n t tr = (Thrown (ServerlessError m), tr)" by blast
  then show ?thesis by (simp add: createAthenaTable_def)
qed

text \<open>
  C9. For every table definition that fails validation, createAthenaTable fails with
  the validation error and leaves the trace as it was: nothing is logged and no
  remote call is made for that table. The create path validates by itself, so the
  same holds for the deploy command with a table name, which only logs its own line
  before, and for the create batch, which is rejected with the validation error at
  the point where it reaches the invalid definition.
\<close>

theorem createAthenaTable_validates_first:
  "(failure (fst (validateAthenaTable n t tr)) \<longrightarrow>
      (\<exists>m. validateAthenaTable n t tr = (Thrown (ServerlessError m), tr) \<and>
           createAthenaTable a n t tr = Some (Thrown (ServerlessError m), tr)))
   \<and> (failure (fst (validateAthenaTable n t tr)) \<and> truthy opt \<and>
      map_of (getAthenaTables custom) (template opt) = Some t \<longrightarrow>
      (\<exists>m. deployAthenaTablesDeploy a opt custom tr =
           Some (Thrown (ServerlessError m),
                 tr @ [Log ''Creating Athena table [object Object]...''])))
   \<and> (failure (fst (validateAthenaTable n t tr)) \<and>
      promiseMapOrder ts = done @ (n, t) # later \<and>
      mapSerial (createMapper a) done tr0 = Some (Resolved Undefined, tr) \<longrightarrow>
      (\<exists>m. createAthenaTables a ts tr0 = Some (Rejected (ServerlessError m), tr)))"
proof (intro conjI impI)
  assume "failure (fst (validateAthenaTable n t tr))"
  then show "\<exists>m. validateAthenaTable n t tr = (Thrown (ServerlessError m), tr) \<and>
           createAthenaTable a n t tr = Some (Thrown (ServerlessError m), tr)"
    by (rule createAthenaTable_invalid)
next
  let ?tr1 = "tr @ [Log ''Creating Athena table [object Object]...'']"
  assume h: "failure (fst (validateAthenaTable n t tr)) \<and> truthy opt \<and>
      map_of (getAthenaTables custom) (template opt) = Some t"
  then have "failure (fst (validateAthenaTable (template opt) t ?tr1))"
    using validateAthenaTable_failure_any by blast
  from createAthenaTable_invalid [OF this, of a] obtain m where
    "createAthenaTable a (template opt) t ?tr1 = Some (Thrown (ServerlessError m), ?tr1)"
    by blast
  with h show "\<exists>m. deployAthenaTablesDeploy a opt custom tr =
           Some (Thrown (ServerlessError m), ?tr1)"
    by (simp add: deployAthenaTablesDeploy_def template_table_def)
next
  assume h: "failure (fst (validateAthenaTable n t tr)) \<and>
      promiseMapOrder ts = done @ (n, t) # later \<and>
      mapSerial (createMapper a) done tr0 = Some (Resolved Undefined, tr)"
  with createAthenaTable_invalid [of n t tr a] obtain m where
    m: "createAthenaTable a n t tr = Some (Thrown (ServerlessError m), tr)" by blast
  then have "createMapper a (n, t) tr = Some (Thrown (ServerlessError m), tr)"
    by (simp add: createMapper_def)
  with h have "mapSerial (createMapper a) (promiseMapOrder ts) tr0 =
      Some (rejection (Thrown (ServerlessError m)), tr)"
    using mapSerial_abort [of "createMapper a" "done" tr0 tr "(n, t)" "Thrown (ServerlessError m)" tr later]
    by simp
  then have "createAthenaTables a ts tr0 = Some (Rejected (ServerlessError m), tr)"
    by (simp add: createAthenaTables_alt)
  then show "\<exists>m. createAthenaTables a ts tr0 = Some (Rejected (ServerlessError m), tr)" ..
qed

lemma noDDL_invalid: "failure (fst (validateAthenaTable n noDDL tr))"
  by (simp add: validateAthenaTable_def noDDL_def goodTable_def truthy_def)

theorem createAthenaTable_validates_first_witness:
  "(\<exists>m. validateAthenaTable ''t2'' noDDL t1Created = (Thrown (ServerlessError m), t1Created) \<and>
        createAthenaTable twoSucceeded ''t2'' noDDL t1Created =
          Some (Thrown (ServerlessError m), t1Created))
   \<and> (\<exists>m. deployAthenaTablesDeploy twoSucceeded (Some ''t2'') (Some [(''t1'', goodTable), (''t2'', noDDL)])
             t1Created =
           Some (Thrown (ServerlessError m),
                 t1Created @ [Log ''Creating Athena table [object Object]...'']))
   \<and> (\<exists>m. createAthenaTables (denying ''t3'') [(''t1'', goodTable), (''t2'', noDDL)] [] =
           Some (Rejected (ServerlessError m), t1Created))"
proof (intro conjI)
  note T = createAthenaTable_validates_first
  have found: "truthy (Some ''t2'') \<and>
      map_of (getAthenaTables (Some [(''t1'', goodTable), (''t2'', noDDL)])) (template (Some ''t2'')) =
        Some noDDL"
    by (simp add: truthy_def getAthenaTables_def template_def)
  have order: "promiseMapOrder [(''t1'', goodTable), (''t2'', noDDL)] =
      [(''t1'', goodTable)] @ (''t2'', noDDL) # []"
    by (simp add: promiseMapOrder_def)
  have c1: "mapSerial (createMapper (denying ''t3'')) [(''t1'', goodTable)] [] =
      Some (Resolved Undefined, t1Created)"
    by (simp add: createMapper_def denying_create_t1)
  show "\<exists>m. validateAthenaTable ''t2'' noDDL t1Created = (Thrown (ServerlessError m), t1Created) \<and>
        createAthenaTable twoSucceeded ''t2'' noDDL t1Created =
          Some (Thrown (ServerlessError m), t1Created)"
    by (rule T [THEN conjunct1, THEN mp, OF noDDL_invalid])
  show "\<exists>m. deployAthenaTablesDeploy twoSucceeded (Some ''t2'') (Some [(''t1'', goodTable), (''t2'', noDDL)])
             t1Created =
           Some (Thrown (ServerlessError m),
                 t1Created @ [Log ''Creating Athena table [object Object]...''])"
    by (rule T [THEN conjunct2, THEN conjunct1, THEN mp, OF conjI [OF noDDL_invalid found]])
  show "\<exists>m. createAthenaTables (denying ''t3'') [(''t1'', goodTable), (''t2'', noDDL)] [] =
           Some (Rejected (ServerlessError m), t1Created)"
    by (rule T [THEN conjunct2, THEN conjunct2, THEN mp,
                OF conjI [OF noDDL_invalid conjI [OF order c1]]])
qed

section \<open>Substitutions\<close>

lemma getSubstitution_plain:
  "\<not> has_pattern rep \<Longrightarrow> getSubstitution matched preceding following rep = rep"
  by (induction matched preceding following rep rule: getSubstitution.induct) auto

lemma occurs_at_0: "occurs_at pat s 0 \<longleftrightarrow> take (length pat) s = pat"
proof
  assume "take (length pat) s = pat"
  then have "length (take (length pat) s) = length pat" by simp
  then have "length pat \<le> length s" by simp
  with \<open>take (length pat) s = pat\<close> show "occurs_at pat s 0" by (simp add: occurs_at_def)
qed (simp add: occurs_at_def)

lemma occurs_at_Suc: "occurs_at pat (c # cs) (Suc k) \<longleftrightarrow> occurs_at pat cs k"
  by (simp add: occurs_at_def)

lemma occurs_at_Nil: "occurs_at pat [] j \<longleftrightarrow> pat = [] \<and> j = 0"
  by (auto simp: occurs_at_def)

lemma js_indexOf_Some:
  "js_indexOf s pat = Some i \<Longrightarrow> occurs_at pat s i \<and> (\<forall>j<i. \<not> occurs_at pat s j)"
proof (induction s arbitrary: i)
  case Nil
  then show ?case by (simp add: occurs_at_Nil split: if_splits)
next
  case (Cons c cs)
  show ?case
  proof (cases "take (length pat) (c # cs) = pat")
    case True
    with Cons.prems have "i = 0" by simp
    with True show ?thesis by (simp add: occurs_at_0)
  next
    case False
    with Cons.prems obtain k where k: "i = Suc k" "js_indexOf cs pat = Some k" by auto
    from Cons.IH [OF k(2)] have ih: "occurs_at pat cs k" "\<forall>j<k. \<not> occurs_at pat cs j" by simp_all
    have "\<forall>j<Suc k. \<not> occurs_at pat (c # cs) j"
    proof (intro allI impI)
      fix j assume "j < Suc k"
      show "\<not> occurs_at pat (c # cs) j"
      proof (cases j)
        case 0
        with False show ?thesis by (simp add: occurs_at_0)
      next
        case (Suc j')
        with \<open>j < Suc k\<close> ih(2) show ?thesis by (simp add: occurs_at_Suc)
      qed
    qed
    with k(1) ih(1) show ?thesis by (simp add: occurs_at_Suc)
  qed
qed

lemma js_indexOf_None: "js_indexOf s pat = None \<Longrightarrow> \<not> occurs_at pat s j"
proof (induction s arbitrary: j)
  case Nil
  then show ?case by (simp add: occurs_at_Nil split: if_splits)
next
  case (Cons c cs)
  from Cons.prems have no: "take (length pat) (c # cs) \<noteq> pat" and rest: "js_indexOf cs pat = None"
    by (auto split: if_splits)
  show ?case
  proof (cases j)
    case 0
    with no show ?thesis by (simp add: occurs_at_0)
  next
    case (Suc j')
    with Cons.IH [OF rest] show ?thesis by (simp add: occurs_at_Suc)
  qed
qed

lemma js_indexOf_first:
  assumes "occurs_at pat s i" and "\<forall>j<i. \<not> occurs_at pat s j"
  shows "js_indexOf s pat = Some i"
proof (cases "js_indexOf s pat")
  case None
  from js_indexOf_None [OF this] assms(1) show ?thesis by blast
next
  case (Some k)
  from js_indexOf_Some [OF this] have k: "occurs_at pat s k" "\<forall>j<k. \<not> occurs_at pat s j"
    by simp_all
  have "\<not> k < i" using assms(2) k(1) by blast
  moreover have "\<not> i < k" using k(2) assms(1) by blast
  ultimately have "k = i" by simp
  with Some show ?thesis by simp
qed

lemma occurs_at_iff:
  "occurs_at pat s i \<longleftrightarrow> (\<exists>pre post. s = pre @ pat @ post \<and> length pre = i)"
proof
  assume o: "occurs_at pat s i"
  then have "i \<le> length s" by (simp add: occurs_at_def)
  have "drop i s = take (length pat) (drop i s) @ drop (length pat) (drop i s)"
    by (simp only: append_take_drop_id)
  with o have "drop i s = pat @ drop (length pat) (drop i s)" by (simp add: occurs_at_def)
  then have "take i s @ drop i s = take i s @ pat @ drop (length pat) (drop i s)" by simp
  then have "s = take i s @ pat @ drop (length pat) (drop i s)" by simp
  moreover from \<open>i \<le> length s\<close> have "length (take i s) = i" by simp
  ultimately show "\<exists>pre post. s = pre @ pat @ post \<and> length pre = i" by blast
next
  assume "\<exists>pre post. s = pre @ pat @ post \<and> length pre = i"
  then show "occurs_at pat s i" by (auto simp: occurs_at_def)
qed

lemma js_replace_first:
  assumes s: "s = pre @ pat @ post"
    and first: "\<forall>pre' post'. s = pre' @ pat @ post' \<longrightarrow> length pre \<le> length pre'"
    and plain: "\<not> has_pattern rep"
  shows "js_replace s pat rep = pre @ rep @ post"
proof -
  from s have "occurs_at pat s (length pre)" by (auto simp: occurs_at_iff)
  moreover have "\<forall>j<length pre. \<not> occurs_at pat s j"
  proof (intro allI impI)
    fix j assume j: "j < length pre"
    show "\<not> occurs_at pat s j"
    proof
      assume "occurs_at pat s j"
      then obtain pre' post' where "s = pre' @ pat @ post'" "length pre' = j"
        by (auto simp: occurs_at_iff)
      with first have "length pre \<le> j" by blast
      with j show False by simp
    qed
  qed
  ultimately have "js_indexOf s pat = Some (length pre)" by (rule js_indexOf_first)
  with s plain show ?thesis by (simp add: js_replace_def getSubstitution_plain)
qed

lemma js_replace_absent:
  assumes "\<forall>pre post. s \<noteq> pre @ pat @ post"
  shows "js_replace s pat rep = s"
proof (cases "js_indexOf s pat")
  case None
  then show ?thesis by (simp add: js_replace_def)
next
  case (Some i)
  from js_indexOf_Some [OF this] have "occurs_at pat s i" by simp
  with assms show ?thesis by (auto simp: occurs_at_iff)
qed

text \<open>
  Values without replacement patterns. The substitutions are applied in mapping
  order, each to the text that the entries before it produced. An entry whose value
  contains none of the replacement patterns of \<open>replace\<close> (a dollar sign followed
  by a dollar sign, an ampersand, a backtick or an apostrophe) replaces the first
  literal occurrence of the token in braces by the value and leaves every other
  occurrence as it is; a text without the token is unchanged. When the definition
  has no substitutions the DDL text is returned unchanged.
\<close>

lemma substituteDDL_first_occurrence_only:
  "(DDLSubstitutions t = None \<longrightarrow> substituteDDL t ddl = Inr ddl)
   \<and> (DDLSubstitutions t = Some [] \<longrightarrow> substituteDDL t ddl = Inr ddl)
   \<and> (DDLSubstitutions t = Some ((k, v) # rest) \<longrightarrow>
      substituteDDL t (Some s) =
        substituteDDL (t\<lparr>DDLSubstitutions := Some rest\<rparr>) (Some (js_replace s (token k) v)))
   \<and> (s = pre @ token k @ post \<and>
      (\<forall>pre' post'. s = pre' @ token k @ post' \<longrightarrow> length pre \<le> length pre') \<and>
      \<not> has_pattern v \<longrightarrow>
      js_replace s (token k) v = pre @ v @ post)
   \<and> ((\<forall>pre post. s \<noteq> pre @ token k @ post) \<longrightarrow> js_replace s (token k) v = s)
   \<and> token k = ''{'' @ k @ ''}''"
proof (intro conjI impI)
  assume "s = pre @ token k @ post \<and>
      (\<forall>pre' post'. s = pre' @ token k @ post' \<longrightarrow> length pre \<le> length pre') \<and>
      \<not> has_pattern v"
  then show "js_replace s (token k) v = pre @ v @ post"
    using js_replace_first [of s pre "token k" post v] by blast
next
  assume "\<forall>pre post. s \<noteq> pre @ token k @ post"
  then show "js_replace s (token k) v = s" by (rule js_replace_absent)
qed (simp_all add: substituteDDL_def token_def)

lemma substituteDDL_first_occurrence_only_example:
  "substituteDDL (goodTable\<lparr>DDLSubstitutions := None\<rparr>) (Some ''LOCATION {S3Location}'') =
     Inr (Some ''LOCATION {S3Location}'')
   \<and> substituteDDL (goodTable\<lparr>DDLSubstitutions := Some []\<rparr>) (Some ''LOCATION {S3Location}'') =
     Inr (Some ''LOCATION {S3Location}'')
   \<and> substituteDDL (goodTable\<lparr>DDLSubstitutions := Some [(''x'', ''V'')]\<rparr>) (Some ''a {x} b {x}'') =
     substituteDDL (goodTable\<lparr>DDLSubstitutions := Some [(''x'', ''V'')], DDLSubstitutions := Some []\<rparr>)
       (Some (js_replace ''a {x} b {x}'' (token ''x'') ''V''))
   \<and> js_replace ''a {x} b {x}'' (token ''x'') ''V'' = ''a '' @ ''V'' @ '' b {x}''
   \<and> js_replace ''abc'' (token ''x'') ''V'' = ''abc''"
proof (intro conjI)
  note T = substituteDDL_first_occurrence_only
  have none: "DDLSubstitutions (goodTable\<lparr>DDLSubstitutions := None\<rparr>) = None" by simp
  have nil: "DDLSubstitutions (goodTable\<lparr>DDLSubstitutions := Some []\<rparr>) = Some []" by simp
  have one: "DDLSubstitutions (goodTable\<lparr>DDLSubstitutions := Some [(''x'', ''V'')]\<rparr>) =
      Some ((''x'', ''V'') # [])" by simp
  have first: "\<forall>pre' post'. ''a {x} b {x}'' = pre' @ token ''x'' @ post' \<longrightarrow>
      length ''a '' \<le> length pre'"
  proof (intro allI impI)
    fix pre' post' :: string
    assume e: "''a {x} b {x}'' = pre' @ token ''x'' @ post'"
    show "length ''a '' \<le> length pre'"
    proof (cases pre')
      case Nil
      with e show ?thesis by (simp add: token_def)
    next
      case (Cons c r)
      show ?thesis
      proof (cases r)
        case Nil
        with Cons e show ?thesis by (simp add: token_def)
      next
        case (Cons d r')
        with \<open>pre' = c # r\<close> show ?thesis by simp
      qed
    qed
  qed
  have occ: "''a {x} b {x}'' = ''a '' @ token ''x'' @ '' b {x}'' \<and>
      (\<forall>pre' post'. ''a {x} b {x}'' = pre' @ token ''x'' @ post' \<longrightarrow> length ''a '' \<le> length pre') \<and>
      \<not> has_pattern ''V''"
    using first by (simp add: token_def)
  have absent: "\<forall>pre post. ''abc'' \<noteq> pre @ token ''x'' @ post"
  proof (intro allI notI)
    fix pre post :: string
    assume "''abc'' = pre @ token ''x'' @ post"
    then have "set ''abc'' = set (pre @ token ''x'' @ post)" by simp
    then have "CHR ''{'' \<in> set ''abc''" by (simp add: token_def)
    then show False by simp
  qed
  show "substituteDDL (goodTable\<lparr>DDLSubstitutions := None\<rparr>) (Some ''LOCATION {S3Location}'') =
     Inr (Some ''LOCATION {S3Location}'')"
    by (rule T [THEN conjunct1, THEN mp, OF none])
  show "substituteDDL (goodTable\<lparr>DDLSubstitutions := Some []\<rparr>) (Some ''LOCATION {S3Location}'') =
     Inr (Some ''LOCATION {S3Location}'')"
    by (rule T [THEN conjunct2, THEN conjunct1, THEN mp, OF nil])
  show "substituteDDL (goodTable\<lparr>DDLSubstitutions := Some [(''x'', ''V'')]\<rparr>) (Some ''a {x} b {x}'') =
     substituteDDL (goodTable\<lparr>DDLSubstitutions := Some [(''x'', ''V'')], DDLSubstitutions := Some []\<rparr>)
       (Some (js_replace ''a {x} b {x}'' (token ''x'') ''V''))"
    by (rule T [THEN conjunct2, THEN conjunct2, THEN conjunct1, THEN mp, OF one])
  show "js_replace ''a {x} b {x}'' (token ''x'') ''V'' = ''a '' @ ''V'' @ '' b {x}''"
    by (rule T [THEN conjunct2, THEN conjunct2, THEN conjunct2, THEN conjunct1, THEN mp, OF occ])
  show "js_replace ''abc'' (token ''x'') ''V'' = ''abc''"
    by (rule T [THEN conjunct2, THEN conjunct2, THEN conjunct2, THEN conjunct2, THEN conjunct1,
                THEN mp, OF absent])
qed

text \<open>
  C3. Each entry is meant to put its value in the place of the first literal
  occurrence of the token in braces. \<open>replace\<close> reads the value as a replacement
  template, so a value with a replacement pattern is not inserted as it is: for the
  text LOCATION {S3Location} and the value s3://bucket/$$data the result has a
  single dollar sign.
\<close>

theorem substituteDDL_expands_replacement_patterns:
  "substituteDDL (goodTable\<lparr>DDLSubstitutions := Some [(''S3Location'', ''s3://bucket/$$data'')]\<rparr>)
     (Some ''LOCATION {S3Location}'') = Inr (Some ''LOCATION s3://bucket/$data'')
   \<and> ''LOCATION s3://bucket/$data'' \<noteq> ''LOCATION '' @ ''s3://bucket/$$data''"
  by (simp add: substituteDDL_def js_replace_def token_def)

section \<open>The validation hook and the not-found message\<close>

text \<open>
  C2. The global validation hook is meant to validate every definition and to fail
  when one of them is invalid. It makes no remote call, but it never calls
  validateAthenaTable: on a mapping whose second definition has neither a DDL nor a
  DDL file, which validateAthenaTable rejects, the hook is fulfilled with the entries
  after logging one line.
\<close>

theorem validateAthenaTablesGlobal_accepts_invalid:
  "validateAthenaTable ''t2'' noDDL [] = (Thrown (ServerlessError (msg_one_of ''t2'')), [])
   \<and> validateAthenaTablesGlobal (Some [(''t1'', goodTable), (''t2'', noDDL)]) [] =
     (Resolved (Entries [(''t1'', goodTable), (''t2'', noDDL)]), [Log ''Validating Athena tables...''])
   \<and> remote_calls [Log ''Validating Athena tables...''] = []"
  by (simp add: validateAthenaTable_def validateAthenaTablesGlobal_def getAthenaTables_def
      noDDL_def goodTable_def truthy_def remote_calls_def)

text \<open>
  C8. For a table name that is not in the configured mapping, the deploy and the
  remove command are rejected with a not-found error and make no remote call. The
  message is meant to name the requested table, but it prints the result of the
  lookup: for the name orders the message ends in undefined.
\<close>

theorem not_found_message_omits_table_name:
  "map_of (getAthenaTables (Some threeTables)) ''orders'' = None
   \<and> deployAthenaTablesDeploy twoSucceeded (Some ''orders'') (Some threeTables) [] =
     Some (Rejected (JsError ''Athena table not found: undefined''), [])
   \<and> removeAthenaTablesRemove twoSucceeded (Some ''orders'') (Some threeTables) [] =
     Some (Rejected (JsError ''Athena table not found: undefined''), [])"
  by (simp add: deployAthenaTablesDeploy_def removeAthenaTablesRemove_def getAthenaTables_def
      threeTables_def truthy_def template_def template_table_def)

end
